theory Spec2Isabelle
  imports Main "HOL-Library.Extended_Nat" "HOL-Library.Multiset"
begin

section \<open>Values, stores and the ambient object\<close>

text \<open>
  A JavaScript value as far as the resource API looks into it: a string (identifiers, ISO
  timestamps, attribute values) or an object with named properties.  A missing property is
  \<open>None\<close>, which is also how \<open>undefined\<close> is written throughout.
\<close>

datatype jsval = JStr string | JObj "string \<Rightarrow> jsval option"

type_synonym jsobject = "string \<Rightarrow> jsval option"

text \<open>A relationship edge: subject, predicate, object.\<close>

type_synonym edge = "string \<times> string \<times> string"

text \<open>
  The record store behind \<open>$datastore\<close>: hashes by item key and the members of the named
  sets (table name, set name, member).
\<close>

record datastore =
  hashes :: "string \<Rightarrow> jsobject option"
  setMembers :: "(string \<times> string \<times> string) list"

text \<open>
  A store write can throw while it is being called, or hand back a promise that rejects;
  the string is the underlying cause.  \<open>storeFaults\<close> says which write calls fail.
\<close>

datatype fault = Throws string | Rejects string

datatype storeCall =
    AddItemToHashFieldByName
  | AddItemToSetByName
  | RemoveItemByName
  | CreateRelationshipBetweenSubjectAndObject string
  | RemoveAllRelationshipsToVector

text \<open>
  The object the static methods are called on (\<open>this\<close>): \<open>$datastore\<close> and
  \<open>$resourceRelationshipDatastore\<close>, either of which may be missing.
\<close>

record nucleus =
  datastore :: "datastore option"
  resourceRelationshipDatastore :: "edge list option"
  storeFaults :: "storeCall \<Rightarrow> fault option"

definition SYSTEM :: string where
  "SYSTEM = ''SYSTEM''"

definition isMember :: string where
  "isMember = ''is-member''"

definition isAuthored :: string where
  "isAuthored = ''is-authored''"

text \<open>
  Modelled from the spec: the relationship store's two reads, which are not part of
  \<open>ResourceAPI.nucleus.js\<close>.  "Read the object(s) of edges with a given subject and
  predicate (direct parents); read the subject(s) of edges with a given object and
  predicate (direct children)."  No edge has \<open>undefined\<close> as an endpoint, so a read for
  \<open>undefined\<close> finds nothing.  Reads always resolve.
\<close>

definition retrieveObjectOfRelationshipWithSubject ::
  "edge list \<Rightarrow> string option \<Rightarrow> string \<Rightarrow> string list" where
  "retrieveObjectOfRelationshipWithSubject es subject predicate =
     (case subject of
        None \<Rightarrow> []
      | Some s \<Rightarrow> map (\<lambda>e. snd (snd e)) (filter (\<lambda>e. fst e = s \<and> fst (snd e) = predicate) es))"

definition retrieveSubjectOfRelationshipWithObject ::
  "edge list \<Rightarrow> string option \<Rightarrow> string \<Rightarrow> string list" where
  "retrieveSubjectOfRelationshipWithObject es object predicate =
     (case object of
        None \<Rightarrow> []
      | Some ob \<Rightarrow> map fst (filter (\<lambda>e. snd (snd e) = ob \<and> fst (snd e) = predicate) es))"

section \<open>Hierarchy walks\<close>

text \<open>
  The \<open>forEach\<close> of both walks: every identifier that is not yet in \<open>nodeIDList\<close> is
  pushed at its end.
\<close>

fun pushUnseen :: "string list \<Rightarrow> string list \<Rightarrow> string list" where
  "pushUnseen nodeIDList [] = nodeIDList"
| "pushUnseen nodeIDList (nodeID # rest) =
     pushUnseen (if nodeID \<in> set nodeIDList then nodeIDList else nodeIDList @ [nodeID]) rest"

text \<open>
  The inner function \<open>retrieveAncestorForResourceByID\<close> of both walks, with the recursion
  of \<open>Promise.all(list.map(retrieveAncestorForResourceByID))\<close> laid out as the queue of
  calls whose store read is in flight.  Every call starts with its read and touches
  \<open>nodeIDList\<close> only after it; the reads are taken to resolve in the order they were
  issued, so the calls run their bodies first in, first out.  \<open>read\<close> is the store read of
  the walk, \<open>depth\<close> the optional bound (\<open>\<infinity>\<close> by default).  The walk need not end (a
  cycle): \<open>fuel\<close> bounds the number of calls, and \<open>None\<close> says the promise has not
  resolved within it.
\<close>

fun retrieveAncestorForResourceByID ::
  "(string option \<Rightarrow> string list) \<Rightarrow> enat \<Rightarrow> nat \<Rightarrow> string option list \<Rightarrow> string list
     \<Rightarrow> string list option" where
  "retrieveAncestorForResourceByID read depth fuel [] nodeIDList = Some nodeIDList"
| "retrieveAncestorForResourceByID read depth 0 (resourceID # pending) nodeIDList = None"
| "retrieveAncestorForResourceByID read depth (Suc fuel) (resourceID # pending) nodeIDList =
     (let childrenNodeIDList = read resourceID in
      if childrenNodeIDList = [] \<or> SYSTEM \<in> set childrenNodeIDList
      then retrieveAncestorForResourceByID read depth fuel pending nodeIDList
      else
        let nodeIDList' = pushUnseen nodeIDList childrenNodeIDList in
        if depth \<le> enat (length nodeIDList')
        then retrieveAncestorForResourceByID read depth fuel pending nodeIDList'
        else retrieveAncestorForResourceByID read depth fuel
               (pending @ map Some childrenNodeIDList) nodeIDList')"

text \<open>
  \<open>walkHierarchyTreeDownward\<close> answers the empty list without a relationship store.
  \<open>walkHierarchyTreeUpward\<close> has no such guard: its first read fails on the missing
  store inside the promise executor, and the promise it returned never resolves.
\<close>

definition walkHierarchyTreeDownward ::
  "nucleus \<Rightarrow> nat \<Rightarrow> string option \<Rightarrow> enat \<Rightarrow> string list option" where
  "walkHierarchyTreeDownward this fuel resourceID depth =
     (case resourceRelationshipDatastore this of
        None \<Rightarrow> Some []
      | Some es \<Rightarrow>
          retrieveAncestorForResourceByID
            (\<lambda>n. retrieveSubjectOfRelationshipWithObject es n isMember) depth fuel [resourceID] [])"

definition walkHierarchyTreeUpward ::
  "nucleus \<Rightarrow> nat \<Rightarrow> string option \<Rightarrow> enat \<Rightarrow> string list option" where
  "walkHierarchyTreeUpward this fuel resourceID depth =
     (case resourceRelationshipDatastore this of
        None \<Rightarrow> None
      | Some es \<Rightarrow>
          retrieveAncestorForResourceByID
            (\<lambda>n. retrieveObjectOfRelationshipWithSubject es n isMember) depth fuel [resourceID] [])"

text \<open>
  The same inner function without the assumption on the order of the reads.  The calls
  whose read is in flight are \<open>pending\<close>; any of them can be the next whose read resolves
  and whose body runs, from the test on the read to the calls for the children, without
  another call running in between.  \<open>resolutions\<close> names, step by step, the pending call
  that is next (an index into \<open>pending\<close>, taken modulo its length); it ends where the
  observation of the walk ends, and \<open>None\<close> says the promise has not resolved by then.
  The first-in-first-out order is the one that always names index 0.
\<close>

fun retrieveAncestorForResourceByIDInOrder ::
  "(string option \<Rightarrow> string list) \<Rightarrow> enat \<Rightarrow> nat list \<Rightarrow> string option list \<Rightarrow> string list
     \<Rightarrow> string list option" where
  "retrieveAncestorForResourceByIDInOrder read depth resolutions [] nodeIDList = Some nodeIDList"
| "retrieveAncestorForResourceByIDInOrder read depth [] (call # calls) nodeIDList = None"
| "retrieveAncestorForResourceByIDInOrder read depth (chosen # resolutions) (call # calls) nodeIDList =
     (let i = chosen mod length (call # calls);
          resourceID = (call # calls) ! i;
          pending = take i (call # calls) @ drop (Suc i) (call # calls);
          childrenNodeIDList = read resourceID in
      if childrenNodeIDList = [] \<or> SYSTEM \<in> set childrenNodeIDList
      then retrieveAncestorForResourceByIDInOrder read depth resolutions pending nodeIDList
      else
        let nodeIDList' = pushUnseen nodeIDList childrenNodeIDList in
        if depth \<le> enat (length nodeIDList')
        then retrieveAncestorForResourceByIDInOrder read depth resolutions pending nodeIDList'
        else retrieveAncestorForResourceByIDInOrder read depth resolutions
               (pending @ map Some childrenNodeIDList) nodeIDList')"



section \<open>Authorization\<close>

text \<open>\<open>list[0]\<close>: the first element, \<open>undefined\<close> on the empty list.\<close>

definition first :: "'a list \<Rightarrow> 'a option" where
  "first xs = (case xs of [] \<Rightarrow> None | x # _ \<Rightarrow> Some x)"

text \<open>
  Both checks: \<open>None\<close> when a walk they wait for never resolves, otherwise the decision.
\<close>

definition verifyThatUserCanRetrieveResource ::
  "nucleus \<Rightarrow> nat \<Rightarrow> string \<Rightarrow> string \<Rightarrow> bool option" where
  "verifyThatUserCanRetrieveResource this fuel userID resourceID =
     (case resourceRelationshipDatastore this of
        None \<Rightarrow> Some True
      | Some es \<Rightarrow>
          (case walkHierarchyTreeUpward this fuel (Some userID) \<infinity> of
             None \<Rightarrow> None
           | Some userAncestorNodeIDList \<Rightarrow>
          (case walkHierarchyTreeDownward this fuel (first userAncestorNodeIDList) \<infinity> of
             None \<Rightarrow> None
           | Some userDirectAncestorChildrenNodeIDList \<Rightarrow>
          (case walkHierarchyTreeUpward this fuel (Some resourceID) \<infinity> of
             None \<Rightarrow> None
           | Some resourceAncestorNodeIDList \<Rightarrow>
               (let nodeIDIntersectionList =
                      filter (\<lambda>nodeID. nodeID \<in> set resourceAncestorNodeIDList)
                        (userAncestorNodeIDList @ userDirectAncestorChildrenNodeIDList)
                in if length nodeIDIntersectionList = 0 then Some False else Some True)))))"

definition verifyThatUserCanUpdateResource ::
  "nucleus \<Rightarrow> nat \<Rightarrow> string \<Rightarrow> string \<Rightarrow> bool option" where
  "verifyThatUserCanUpdateResource this fuel userID resourceID =
     (case resourceRelationshipDatastore this of
        None \<Rightarrow> Some True
      | Some es \<Rightarrow>
          (let userDirectAncestorNodeIDList =
                 retrieveObjectOfRelationshipWithSubject es (Some userID) isMember
           in
          (case walkHierarchyTreeDownward this fuel (first userDirectAncestorNodeIDList) \<infinity> of
             None \<Rightarrow> None
           | Some userDirectAncestorChildrenNodeIDList \<Rightarrow>
          (case walkHierarchyTreeUpward this fuel (Some resourceID) \<infinity> of
             None \<Rightarrow> None
           | Some resourceAncestorNodeIDList \<Rightarrow>
               (let nodeIDIntersectionList =
                      filter (\<lambda>nodeID. nodeID \<in> set resourceAncestorNodeIDList)
                        (userDirectAncestorNodeIDList @ userDirectAncestorChildrenNodeIDList)
                in if length nodeIDIntersectionList = 0 then Some False else Some True)))))"

section \<open>Errors, promises and the resource factory\<close>

text \<open>
  The errors a call can reject with: the three subclasses the source names, the base class
  \<open>NucleusError\<close> (message and, when given, the \<open>error\<close> of its meta object), and the
  error of a collaborator passed on as it is.
\<close>

datatype nucleusError =
    UnexpectedValueTypeNucleusError string
  | UndefinedContextNucleusError string
  | UnauthorizedActionNucleusError string
  | NucleusError string "string option"
  | Underlying string

text \<open>What the promise of an \<open>async\<close> method comes to; \<open>Pending\<close> when it never settles.\<close>

datatype 'a promise = Resolved 'a | Rejected nucleusError | Pending

text \<open>
  What \<open>new NucleusResourceModel(attributes, userID, reservedID)\<close> builds: the resource
  exposes its ID, its meta block, its attributes and the key \<open>generateOwnItemKey()\<close>
  answers.  The constructor is an argument of every call; it may throw (\<open>Inl\<close>).
\<close>

record resource =
  ID :: string
  meta :: jsobject
  attributes :: jsobject
  ownItemKey :: string

type_synonym resourceModel = "jsobject \<Rightarrow> string \<Rightarrow> jsval option \<Rightarrow> string + resource"

record createdResource =
  resource :: resource
  resourceAuthorID :: string
  resourceMemberNodeID :: string

definition RESOURCE_ID_BY_TYPE_TABLE_NAME :: string where
  "RESOURCE_ID_BY_TYPE_TABLE_NAME = ''ResourceIDByType''"

text \<open>\<open>Reflect.deleteProperty(object, name)\<close> on a plain object.\<close>

definition deleteProperty :: "jsobject \<Rightarrow> string \<Rightarrow> jsobject" where
  "deleteProperty object name = object(name := None)"

text \<open>\<open>!value\<close> for an optional string: \<open>undefined\<close> and the empty string are falsy.\<close>

definition falsy :: "string option \<Rightarrow> bool" where
  "falsy value = (case value of None \<Rightarrow> True | Some s \<Rightarrow> s = [])"

text \<open>
  The own enumerable properties \<open>Object.assign\<close> copies from a source value: those of an
  object, none of \<open>undefined\<close>, and the characters of a string under their indices.
\<close>

fun decimal :: "nat \<Rightarrow> string" where
  "decimal n =
     (if n < 10 then [char_of (48 + n)] else decimal (n div 10) @ [char_of (48 + n mod 10)])"

declare decimal.simps [simp del]

definition ownEnumerable :: "jsval option \<Rightarrow> jsobject" where
  "ownEnumerable source =
     (case source of
        None \<Rightarrow> Map.empty
      | Some (JObj properties) \<Rightarrow> properties
      | Some (JStr s) \<Rightarrow> map_of (zip (map decimal [0 ..< length s]) (map (\<lambda>c. JStr [c]) s)))"

text \<open>
  Modelled from the spec: the storage key of a resource, \<open>NucleusResource.generateItemKey\<close>,
  which is not in the source file: "a matching static key generator must exist given only
  (resourceType, resourceID)".
\<close>

definition generateItemKey :: "string \<Rightarrow> string \<Rightarrow> string" where
  "generateItemKey resourceType resourceID = resourceType @ '':'' @ resourceID"

text \<open>
  Modelled from the spec: the record store's operations, which are not in the source file.
  "Write a field set into a record by key" (field by field: fields that are not written
  keep their value); "add a member to a set by name; delete a record by key; read all
  fields of a record by key; check record existence by key."
\<close>

definition addItemToHashFieldByName :: "datastore \<Rightarrow> string \<Rightarrow> jsobject \<Rightarrow> datastore" where
  "addItemToHashFieldByName ds itemKey fieldSet =
     ds\<lparr>hashes := (hashes ds)(itemKey \<mapsto>
           (case hashes ds itemKey of None \<Rightarrow> fieldSet | Some stored \<Rightarrow> stored ++ fieldSet))\<rparr>"

definition addItemToSetByName :: "datastore \<Rightarrow> string \<Rightarrow> string \<Rightarrow> string \<Rightarrow> datastore" where
  "addItemToSetByName ds tableName setName memberID =
     (if (tableName, setName, memberID) \<in> set (setMembers ds) then ds
      else ds\<lparr>setMembers := setMembers ds @ [(tableName, setName, memberID)]\<rparr>)"

definition removeItemByName :: "datastore \<Rightarrow> string \<Rightarrow> datastore" where
  "removeItemByName ds itemKey = ds\<lparr>hashes := (hashes ds)(itemKey := None)\<rparr>"

definition retrieveAllItemsFromHashByName :: "datastore \<Rightarrow> string \<Rightarrow> jsobject" where
  "retrieveAllItemsFromHashByName ds itemKey =
     (case hashes ds itemKey of None \<Rightarrow> Map.empty | Some stored \<Rightarrow> stored)"

definition existsAsync :: "datastore \<Rightarrow> string \<Rightarrow> bool" where
  "existsAsync ds itemKey = (hashes ds itemKey \<noteq> None)"

text \<open>
  Modelled from the spec: the relationship store's writes, which are not in the source file.
  "Create edge(subject, predicate, object); delete every edge touching a given node ID as
  either endpoint."
\<close>

definition createRelationshipBetweenSubjectAndObject ::
  "edge list \<Rightarrow> string \<Rightarrow> string \<Rightarrow> string \<Rightarrow> edge list" where
  "createRelationshipBetweenSubjectAndObject es subject predicate object =
     (if (subject, predicate, object) \<in> set es then es else es @ [(subject, predicate, object)])"

definition removeAllRelationshipsToVector :: "edge list \<Rightarrow> string \<Rightarrow> edge list" where
  "removeAllRelationshipsToVector es vector =
     filter (\<lambda>e. fst e \<noteq> vector \<and> snd (snd e) \<noteq> vector) es"

text \<open>
  Modelled from the spec: the fields a resource is stored under when the whole resource
  object is handed to the record store: "Resource: {ID, type, attributes, meta}".
\<close>

definition ownProperties :: "resource \<Rightarrow> jsobject" where
  "ownProperties r = (attributes r)(''ID'' \<mapsto> JStr (ID r), ''meta'' \<mapsto> JObj (meta r))"

text \<open>
  One call of a store write: the fault planned for it, if any, and the stores afterwards.
  A write that fails leaves the stores as they were.
\<close>

definition invoke :: "nucleus \<Rightarrow> storeCall \<Rightarrow> (nucleus \<Rightarrow> nucleus) \<Rightarrow> fault option \<times> nucleus" where
  "invoke this call effect =
     (case storeFaults this call of None \<Rightarrow> (None, effect this) | Some f \<Rightarrow> (Some f, this))"

definition onDatastore :: "(datastore \<Rightarrow> datastore) \<Rightarrow> nucleus \<Rightarrow> nucleus" where
  "onDatastore change this = this\<lparr>datastore := map_option change (datastore this)\<rparr>"

definition onRelationships :: "(edge list \<Rightarrow> edge list) \<Rightarrow> nucleus \<Rightarrow> nucleus" where
  "onRelationships change this =
     this\<lparr>resourceRelationshipDatastore := map_option change (resourceRelationshipDatastore this)\<rparr>"

text \<open>
  \<open>Promise.all\<close> over calls that all returned a promise: it rejects with the rejection of
  the first call that rejects.
\<close>

fun firstRejection :: "fault option list \<Rightarrow> string option" where
  "firstRejection [] = None"
| "firstRejection (Some (Rejects error) # rest) = Some error"
| "firstRejection (_ # rest) = firstRejection rest"

definition quoted :: "string \<Rightarrow> string" where
  "quoted s = [CHR 0x22] @ s @ [CHR 0x22]"

text \<open>
  What a call that was just made threw, if it threw; and what a call that is waited for
  failed with, thrown or rejected.
\<close>

definition thrown :: "fault option \<Rightarrow> string option" where
  "thrown f = (case f of Some (Throws error) \<Rightarrow> Some error | _ \<Rightarrow> None)"

definition failure :: "fault option \<Rightarrow> string option" where
  "failure f =
     (case f of
        None \<Rightarrow> None
      | Some (Throws error) \<Rightarrow> Some error
      | Some (Rejects error) \<Rightarrow> Some error)"

section \<open>createResource\<close>

text \<open>
  The argument checks on types are carried by the types of the model; the check that is
  left is the one on the empty origin user ID.  Every operation answers the promise, the
  stores afterwards and, where it is handed one, the caller's attributes object afterwards.
\<close>

text \<open>The \<open>catch\<close> block of \<open>createResource\<close>.\<close>

definition externalError :: "string \<Rightarrow> string \<Rightarrow> nucleusError" where
  "externalError resourceType error =
     NucleusError (''Could not create '' @ resourceType @ '' because of an external error: '' @ error)
       (Some error)"

text \<open>
  The callback of \<open>.then\<close>: both edges are written when there is a relationship store.  It
  runs after the \<open>try\<close> block has been left, so whatever fails here rejects the promise as
  it is.
\<close>

definition createRelationships ::
  "nucleus \<Rightarrow> createdResource \<Rightarrow> createdResource promise \<times> nucleus" where
  "createRelationships this created =
     (case resourceRelationshipDatastore this of
        None \<Rightarrow> (Resolved created, this)
      | Some es \<Rightarrow>
          (let (memberWrite, this1) =
                 invoke this (CreateRelationshipBetweenSubjectAndObject isMember)
                   (onRelationships (\<lambda>es. createRelationshipBetweenSubjectAndObject es
                      (ID (resource created)) isMember (resourceMemberNodeID created)))
           in case thrown memberWrite of
                Some error \<Rightarrow> (Rejected (Underlying error), this1)
              | None \<Rightarrow>
                  (let (authoredWrite, this2) =
                         invoke this1 (CreateRelationshipBetweenSubjectAndObject isAuthored)
                           (onRelationships (\<lambda>es. createRelationshipBetweenSubjectAndObject es
                              (ID (resource created)) isAuthored (resourceAuthorID created)))
                   in case thrown authoredWrite of
                        Some error \<Rightarrow> (Rejected (Underlying error), this2)
                      | None \<Rightarrow>
                          (case firstRejection [memberWrite, authoredWrite] of
                             Some error \<Rightarrow> (Rejected (Underlying error), this2)
                           | None \<Rightarrow> (Resolved created, this2)))))"

text \<open>
  The \<open>try\<close> block.  What is thrown while the block runs (by the constructor, or by a store
  write while it is being called) is caught and wrapped.  The block returns the promise of
  \<open>Promise.all\<close> without waiting for it, so a write that rejects later is not caught.
\<close>

definition tryCreateResource ::
  "nucleus \<Rightarrow> string \<Rightarrow> resourceModel \<Rightarrow> jsobject \<Rightarrow> string \<Rightarrow> string
     \<Rightarrow> createdResource promise \<times> nucleus \<times> jsobject" where
  "tryCreateResource this resourceType NucleusResourceModel resourceAttributes originUserID
       parentNodeID =
     (let reservedResourceID = resourceAttributes ''ID'';
          resourceAttributes' =
            deleteProperty (deleteProperty resourceAttributes ''ID'') ''meta''
      in case NucleusResourceModel resourceAttributes' originUserID reservedResourceID of
           Inl error \<Rightarrow> (Rejected (externalError resourceType error), this, resourceAttributes')
         | Inr r \<Rightarrow>
             (let resourceItemKey = ownItemKey r;
                  (recordWrite, this1) =
                    invoke this AddItemToHashFieldByName
                      (onDatastore (\<lambda>ds. addItemToHashFieldByName ds resourceItemKey (ownProperties r)))
              in case thrown recordWrite of
                   Some error \<Rightarrow>
                     (Rejected (externalError resourceType error), this1, resourceAttributes')
                 | None \<Rightarrow>
                     (let (indexWrite, this2) =
                            invoke this1 AddItemToSetByName
                              (onDatastore (\<lambda>ds. addItemToSetByName ds
                                 RESOURCE_ID_BY_TYPE_TABLE_NAME resourceType (ID r)))
                      in case thrown indexWrite of
                           Some error \<Rightarrow>
                             (Rejected (externalError resourceType error), this2, resourceAttributes')
                         | None \<Rightarrow>
                             (case firstRejection [recordWrite, indexWrite] of
                                Some error \<Rightarrow>
                                  (Rejected (Underlying error), this2, resourceAttributes')
                              | None \<Rightarrow>
                                  (let (outcome, this3) =
                                         createRelationships this2
                                           \<lparr>resource = r, resourceAuthorID = originUserID,
                                            resourceMemberNodeID = parentNodeID\<rparr>
                                   in (outcome, this3, resourceAttributes'))))))"

definition createResource ::
  "nucleus \<Rightarrow> string \<Rightarrow> resourceModel \<Rightarrow> jsobject \<Rightarrow> string \<Rightarrow> string option
     \<Rightarrow> createdResource promise \<times> nucleus \<times> jsobject" where
  "createResource this resourceType NucleusResourceModel resourceAttributes originUserID
       parentNodeID =
     (if originUserID = []
      then (Rejected (UnexpectedValueTypeNucleusError
              ''The origin user ID must be a string and can't be undefined.''),
            this, resourceAttributes)
      else
        (case datastore this of
           None \<Rightarrow>
             (Rejected (UndefinedContextNucleusError ''No datastore is provided.''),
              this, resourceAttributes)
         | Some ds \<Rightarrow>
             (let parentNodeID' =
                    (case resourceRelationshipDatastore this of
                       Some es \<Rightarrow>
                         if falsy parentNodeID
                         then first (retrieveObjectOfRelationshipWithSubject es
                                       (Some originUserID) isMember)
                         else parentNodeID
                     | None \<Rightarrow> parentNodeID)
              in if falsy parentNodeID'
                 then (Rejected (NucleusError
                         (''Could not retrieve the node which the origin user ('' @ originUserID
                            @ '') is member of.'') None),
                       this, resourceAttributes)
                 else tryCreateResource this resourceType NucleusResourceModel resourceAttributes
                        originUserID (the parentNodeID'))))"

section \<open>removeResourceByID\<close>

definition removeResourceByID ::
  "nucleus \<Rightarrow> nat \<Rightarrow> string \<Rightarrow> string \<Rightarrow> string \<Rightarrow> string promise \<times> nucleus" where
  "removeResourceByID this fuel resourceType resourceID originUserID =
     (if originUserID = []
      then (Rejected (UnexpectedValueTypeNucleusError
              ''The origin user ID must be a string and can't be undefined.''), this)
      else
        (case datastore this of
           None \<Rightarrow> (Rejected (UndefinedContextNucleusError ''No datastore is provided.''), this)
         | Some ds \<Rightarrow>
             (case verifyThatUserCanUpdateResource this fuel originUserID resourceID of
                None \<Rightarrow> (Pending, this)
              | Some canUpdateResource \<Rightarrow>
                  if \<not> canUpdateResource
                  then (Rejected (UnauthorizedActionNucleusError
                          (''The user ('' @ quoted originUserID @ '') is not authorized to remove the ''
                             @ resourceType @ '' ('' @ quoted resourceID @ '')'')), this)
                  else
                    (let resourceItemKey = generateItemKey resourceType resourceID;
                         resourceExists = existsAsync ds resourceItemKey
                     in if \<not> resourceExists
                        then (Rejected (UndefinedContextNucleusError
                                (''The '' @ resourceType @ '' ('' @ quoted resourceID
                                   @ '') does not exist.'')), this)
                        else
                          (let (recordRemoval, this1) =
                                 invoke this RemoveItemByName
                                   (onDatastore (\<lambda>ds. removeItemByName ds resourceItemKey))
                           in case failure recordRemoval of
                                Some error \<Rightarrow> (Rejected (Underlying error), this1)
                              | None \<Rightarrow>
                                  (case resourceRelationshipDatastore this1 of
                                     None \<Rightarrow> (Resolved resourceID, this1)
                                   | Some es \<Rightarrow>
                                       (let (cleanup, this2) =
                                              invoke this1 RemoveAllRelationshipsToVector
                                                (onRelationships
                                                   (\<lambda>es. removeAllRelationshipsToVector es resourceID))
                                        in case failure cleanup of
                                             Some error \<Rightarrow> (Rejected (Underlying error), this2)
                                           | None \<Rightarrow> (Resolved resourceID, this2))))))))"

section \<open>retrieveResourceByID\<close>

definition retrieveResourceByID ::
  "nucleus \<Rightarrow> nat \<Rightarrow> string \<Rightarrow> resourceModel \<Rightarrow> string \<Rightarrow> string \<Rightarrow> resource promise" where
  "retrieveResourceByID this fuel resourceType NucleusResourceModel resourceID originUserID =
     (if originUserID = []
      then Rejected (UnexpectedValueTypeNucleusError
             ''The origin user ID must be a string and can't be undefined.'')
      else
        (case datastore this of
           None \<Rightarrow> Rejected (UndefinedContextNucleusError ''No datastore is provided.'')
         | Some ds \<Rightarrow>
             (case verifyThatUserCanRetrieveResource this fuel originUserID resourceID of
                None \<Rightarrow> Pending
              | Some canRetrieveResource \<Rightarrow>
                  if \<not> canRetrieveResource
                  then Rejected (UnauthorizedActionNucleusError
                         (''The user ('' @ quoted originUserID @ '') is not authorized to retrieve the ''
                            @ resourceType @ '' ('' @ quoted resourceID @ '')''))
                  else
                    (let resourceItemKey = generateItemKey resourceType resourceID;
                         resourceExists = existsAsync ds resourceItemKey
                     in if \<not> resourceExists
                        then Rejected (UndefinedContextNucleusError
                               (''The '' @ resourceType @ '' ('' @ quoted resourceID
                                  @ '') does not exist.''))
                        else
                          (case NucleusResourceModel
                                  (retrieveAllItemsFromHashByName ds resourceItemKey)
                                  originUserID None of
                             Inl error \<Rightarrow> Rejected (Underlying error)
                           | Inr r \<Rightarrow> Resolved r)))))"

section \<open>updatesResourceByID\<close>

text \<open>
  The two readings of the clock, \<open>new Date().toISOString()\<close>, are arguments:
  \<open>updatedISOTime\<close> is the one taken before the resource is built, \<open>isoTimeAtWrite\<close> the
  one stamped on the resource that is written.
\<close>

definition updatesResourceByID ::
  "nucleus \<Rightarrow> nat \<Rightarrow> string \<Rightarrow> string \<Rightarrow> string \<Rightarrow> resourceModel \<Rightarrow> string \<Rightarrow> jsobject
     \<Rightarrow> string \<Rightarrow> resource promise \<times> nucleus \<times> jsobject" where
  "updatesResourceByID this fuel updatedISOTime isoTimeAtWrite resourceType NucleusResourceModel
       resourceID resourceAttributes originUserID =
     (if originUserID = []
      then (Rejected (UnexpectedValueTypeNucleusError
              ''The origin user ID must be a string and can't be undefined.''),
            this, resourceAttributes)
      else
        (case datastore this of
           None \<Rightarrow>
             (Rejected (UndefinedContextNucleusError ''No datastore is provided.''),
              this, resourceAttributes)
         | Some ds \<Rightarrow>
             (case verifyThatUserCanUpdateResource this fuel originUserID resourceID of
                None \<Rightarrow> (Pending, this, resourceAttributes)
              | Some canUpdateResource \<Rightarrow>
                  if \<not> canUpdateResource
                  then (Rejected (UnauthorizedActionNucleusError
                          (''The user ('' @ quoted originUserID @ '') is not authorized to update the ''
                             @ resourceType @ '' ('' @ quoted resourceID @ '')'')),
                        this, resourceAttributes)
                  else
                    (let resourceItemKey = generateItemKey resourceType resourceID;
                         resourceExists = existsAsync ds resourceItemKey
                     in if \<not> resourceExists
                        then (Rejected (UndefinedContextNucleusError
                                (''The '' @ resourceType @ '' ('' @ quoted resourceID
                                   @ '') does not exist.'')),
                              this, resourceAttributes)
                        else
                          (let staleResourceAttributes =
                                 retrieveAllItemsFromHashByName ds resourceItemKey;
                               staleResourceAttributes' =
                                 staleResourceAttributes(''meta'' \<mapsto>
                                   JObj ([''updatedISOTime'' \<mapsto> JStr updatedISOTime]
                                           ++ ownEnumerable (staleResourceAttributes ''meta'')));
                               resourceAttributes' =
                                 deleteProperty (deleteProperty resourceAttributes ''ID'') ''meta''
                           in case NucleusResourceModel
                                     (staleResourceAttributes' ++ resourceAttributes')
                                     originUserID None of
                                Inl error \<Rightarrow>
                                  (Rejected (Underlying error), this, resourceAttributes')
                              | Inr r \<Rightarrow>
                                  (let r' = r\<lparr>meta := (meta r)(''updatedISOTime'' \<mapsto>
                                               JStr isoTimeAtWrite)\<rparr>;
                                       (recordWrite, this1) =
                                         invoke this AddItemToHashFieldByName
                                           (onDatastore (\<lambda>ds. addItemToHashFieldByName ds
                                              resourceItemKey
                                              ([''meta'' \<mapsto> JObj (meta r')] ++ resourceAttributes')))
                                   in case failure recordWrite of
                                        Some error \<Rightarrow>
                                          (Rejected (Underlying error), this1, resourceAttributes')
                                      | None \<Rightarrow> (Resolved r', this1, resourceAttributes')))))))"

section \<open>Notions the properties are stated with\<close>

text \<open>
  What one call of the inner walk function contributes for a node: the identifiers its read
  answers, or nothing when the read names \<open>SYSTEM\<close>.
\<close>

definition contributes :: "(string option \<Rightarrow> string list) \<Rightarrow> string option \<Rightarrow> string list" where
  "contributes read n = (if SYSTEM \<in> set (read n) then [] else read n)"

text \<open>
  The nodes within \<open>k\<close> levels of \<open>start\<close>: level one is what the call for \<open>start\<close>
  contributes, and every further level what the calls for the nodes of the level before
  contribute.
\<close>

fun withinLevels :: "(string option \<Rightarrow> string list) \<Rightarrow> string option \<Rightarrow> nat \<Rightarrow> string set" where
  "withinLevels read start 0 = {}"
| "withinLevels read start (Suc k) =
     set (contributes read start) \<union> withinLevels read start k \<union>
     (\<Union>x \<in> withinLevels read start k. set (contributes read (Some x)))"

text \<open>The \<open>is-member\<close> edges as a relation from subject to object.\<close>

definition memberRelation :: "edge list \<Rightarrow> (string \<times> string) set" where
  "memberRelation es = {(s, ob). (s, isMember, ob) \<in> set es}"

text \<open>
  The order of JavaScript's \<open><=\<close> on strings (by character code, a proper prefix first),
  which on ISO timestamps of one format is the order of time.
\<close>

fun notLaterThan :: "string \<Rightarrow> string \<Rightarrow> bool" where
  "notLaterThan [] t = True"
| "notLaterThan (a # s) [] = False"
| "notLaterThan (a # s) (b # t) =
     ((of_char a :: nat) < of_char b \<or> (a = b \<and> notLaterThan s t))"


section \<open>Worked states\<close>

definition noFaults :: "storeCall \<Rightarrow> fault option" where
  "noFaults = (\<lambda>call. None)"

definition emptyDatastore :: datastore where
  "emptyDatastore = \<lparr>hashes = Map.empty, setMembers = []\<rparr>"

text \<open>
  The hierarchy \<open>SYSTEM \<rightarrow> orgA \<rightarrow> {userU, resourceR}\<close> beside \<open>SYSTEM \<rightarrow> orgB \<rightarrow> userV\<close>.
\<close>

definition twoTrees :: nucleus where
  "twoTrees =
     \<lparr>datastore = Some emptyDatastore,
      resourceRelationshipDatastore = Some
        [(''orgA'', isMember, SYSTEM), (''userU'', isMember, ''orgA''),
         (''resourceR'', isMember, ''orgA''), (''orgB'', isMember, SYSTEM),
         (''userV'', isMember, ''orgB'')],
      storeFaults = noFaults\<rparr>"

text \<open>\<open>userU\<close> sits directly under \<open>SYSTEM\<close>, \<open>resourceR\<close> under \<open>orgA\<close>.\<close>

definition topLevelUser :: nucleus where
  "topLevelUser =
     \<lparr>datastore = Some emptyDatastore,
      resourceRelationshipDatastore = Some
        [(''userU'', isMember, SYSTEM), (''orgA'', isMember, SYSTEM),
         (''resourceR'', isMember, ''orgA'')],
      storeFaults = noFaults\<rparr>"

text \<open>\<open>SYSTEM \<rightarrow> orgTop \<rightarrow> {orgA \<rightarrow> userU, resourceR}\<close>.\<close>

definition nestedOrganisation :: nucleus where
  "nestedOrganisation =
     \<lparr>datastore = Some emptyDatastore,
      resourceRelationshipDatastore = Some
        [(''orgTop'', isMember, SYSTEM), (''orgA'', isMember, ''orgTop''),
         (''userU'', isMember, ''orgA''), (''resourceR'', isMember, ''orgTop'')],
      storeFaults = noFaults\<rparr>"



text \<open>
  A resource constructor for the worked calls: it honours an ID among the attributes, then
  the reserved ID, keeps the meta block it is given over a creation time of its own, and
  keys the resource by type and ID.
\<close>

definition plainResourceModel :: "string \<Rightarrow> resourceModel" where
  "plainResourceModel resourceType resourceAttributes authorUserID reservedID =
     (let identifier =
            (case resourceAttributes ''ID'' of
               Some (JStr given) \<Rightarrow> given
             | _ \<Rightarrow> (case reservedID of Some (JStr reserved) \<Rightarrow> reserved | _ \<Rightarrow> ''generated''))
      in Inr \<lparr>ID = identifier,
              meta = [''createdISOTime'' \<mapsto> JStr ''2026-01-01T00:00:00.000Z'']
                       ++ ownEnumerable (resourceAttributes ''meta''),
              attributes = deleteProperty (deleteProperty resourceAttributes ''ID'') ''meta'',
              ownItemKey = generateItemKey resourceType identifier\<rparr>)"

text \<open>A record store that holds the resource \<open>Dummy:r1\<close>, last updated in 2030.\<close>

definition storedDummy :: jsobject where
  "storedDummy =
     [''ID'' \<mapsto> JStr ''r1'', ''name'' \<mapsto> JStr ''first'', ''colour'' \<mapsto> JStr ''red'',
      ''meta'' \<mapsto> JObj [''createdISOTime'' \<mapsto> JStr ''2020-05-05T10:00:00.000Z'',
                        ''updatedISOTime'' \<mapsto> JStr ''2030-01-01T00:00:00.000Z'']]"

definition oneRecord :: nucleus where
  "oneRecord =
     \<lparr>datastore = Some \<lparr>hashes = [''Dummy:r1'' \<mapsto> storedDummy], setMembers = []\<rparr>,
      resourceRelationshipDatastore = None,
      storeFaults = noFaults\<rparr>"

text \<open>The same record, with \<open>r1\<close> and its author \<open>userU\<close> both members of \<open>orgA\<close>.\<close>

definition recordInTree :: nucleus where
  "recordInTree =
     \<lparr>datastore = Some \<lparr>hashes = [''Dummy:r1'' \<mapsto> storedDummy], setMembers = []\<rparr>,
      resourceRelationshipDatastore = Some
        [(''orgA'', isMember, SYSTEM), (''userU'', isMember, ''orgA''),
         (''r1'', isMember, ''orgA''), (''r1'', isAuthored, ''userU'')],
      storeFaults = noFaults\<rparr>"

text \<open>Reading a call's answer: the promise, the stores, the caller's object.\<close>

definition resolved :: "'a promise \<Rightarrow> bool" where
  "resolved p = (case p of Resolved v \<Rightarrow> True | _ \<Rightarrow> False)"

definition undefinedContext :: "'a promise \<Rightarrow> bool" where
  "undefinedContext p =
     (case p of Rejected (UndefinedContextNucleusError message) \<Rightarrow> True | _ \<Rightarrow> False)"

definition settledAfterDeletion :: "'a promise \<Rightarrow> bool" where
  "settledAfterDeletion p =
     (case p of
        Resolved v \<Rightarrow> True
      | Rejected (NucleusError message (Some error)) \<Rightarrow> True
      | Rejected (Underlying error) \<Rightarrow> True
      | _ \<Rightarrow> False)"

definition storedField :: "nucleus \<Rightarrow> string \<Rightarrow> string \<Rightarrow> jsval option" where
  "storedField this itemKey name =
     (case datastore this of
        None \<Rightarrow> None
      | Some ds \<Rightarrow> (case hashes ds itemKey of None \<Rightarrow> None | Some stored \<Rightarrow> stored name))"

definition storedMetaField :: "nucleus \<Rightarrow> string \<Rightarrow> string \<Rightarrow> jsval option" where
  "storedMetaField this itemKey name =
     (case storedField this itemKey ''meta'' of
        Some (JObj block) \<Rightarrow> block name
      | _ \<Rightarrow> None)"

section \<open>Properties of the walks\<close>

lemma pushUnseen_set: "set (pushUnseen acc cs) = set acc \<union> set cs"
  by (induction cs arbitrary: acc) auto

lemma pushUnseen_prefix: "\<exists>ys. pushUnseen acc cs = acc @ ys"
proof (induction cs arbitrary: acc)
  case Nil
  then show ?case by simp
next
  case (Cons c cs)
  show ?case
  proof (cases "c \<in> set acc")
    case True
    with Cons show ?thesis by simp
  next
    case False
    obtain ys where "pushUnseen (acc @ [c]) cs = (acc @ [c]) @ ys"
      using Cons by blast
    with False show ?thesis by simp
  qed
qed

lemma pushUnseen_length: "length acc \<le> length (pushUnseen acc cs)"
  using pushUnseen_prefix [of acc cs] by auto

lemma pushUnseen_grows:
  "\<not> set cs \<subseteq> set acc \<Longrightarrow> length acc < length (pushUnseen acc cs)"
proof (induction cs arbitrary: acc)
  case Nil
  then show ?case by simp
next
  case (Cons c cs)
  show ?case
  proof (cases "c \<in> set acc")
    case True
    with Cons show ?thesis by auto
  next
    case False
    have "length (acc @ [c]) \<le> length (pushUnseen (acc @ [c]) cs)"
      by (rule pushUnseen_length)
    with False show ?thesis by simp
  qed
qed

lemma pushUnseen_first:
  "cs \<noteq> [] \<Longrightarrow> first (pushUnseen [] cs) = first cs"
proof (cases cs)
  case Nil
  then show "cs \<noteq> [] \<Longrightarrow> ?thesis" by simp
next
  case (Cons c rest)
  obtain ys where "pushUnseen [c] rest = [c] @ ys"
    using pushUnseen_prefix [of "[c]" rest] by blast
  with Cons show ?thesis by (simp add: first_def)
qed

lemma walk_prefix:
  "retrieveAncestorForResourceByID read depth fuel pending acc = Some xs \<Longrightarrow> \<exists>ys. xs = acc @ ys"
proof (induction read depth fuel pending acc rule: retrieveAncestorForResourceByID.induct)
  case (1 read depth fuel acc)
  then show ?case by simp
next
  case (2 read depth n pending acc)
  then show ?case by simp
next
  case (3 read depth fuel n pending acc)
  obtain zs where zs: "pushUnseen acc (read n) = acc @ zs"
    using pushUnseen_prefix by blast
  from 3 zs show ?case
    by (auto simp: Let_def split: if_splits)
qed

lemma walk_fuel_mono:
  "retrieveAncestorForResourceByID read depth fuel pending acc = Some xs \<Longrightarrow>
   retrieveAncestorForResourceByID read depth (fuel + extra) pending acc = Some xs"
proof (induction read depth fuel pending acc rule: retrieveAncestorForResourceByID.induct)
  case (1 read depth fuel acc)
  then show ?case by simp
next
  case (2 read depth n pending acc)
  then show ?case by simp
next
  case (3 read depth fuel n pending acc)
  then show ?case
    by (auto simp: Let_def split: if_splits)
qed

lemma walk_deterministic:
  assumes "retrieveAncestorForResourceByID read depth k pending acc = Some xs"
    and "retrieveAncestorForResourceByID read depth k' pending acc = Some ys"
  shows "xs = ys"
proof -
  have "retrieveAncestorForResourceByID read depth (k + k') pending acc = Some xs"
    using assms(1) by (rule walk_fuel_mono)
  moreover have "retrieveAncestorForResourceByID read depth (k' + k) pending acc = Some ys"
    using assms(2) by (rule walk_fuel_mono)
  ultimately show ?thesis by (simp add: add.commute)
qed



lemma withinLevels_mono: "k \<le> k' \<Longrightarrow> withinLevels read start k \<subseteq> withinLevels read start k'"
proof (induction k')
  case 0
  then show ?case by simp
next
  case (Suc k')
  show ?case
  proof (cases "k = Suc k'")
    case True
    then show ?thesis by simp
  next
    case False
    with Suc.prems have "k \<le> k'" by simp
    then have "withinLevels read start k \<subseteq> withinLevels read start k'" by (rule Suc.IH)
    then show ?thesis by auto
  qed
qed

lemma withinLevels_first: "set (contributes read start) \<subseteq> withinLevels read start (Suc k)"
  by auto

lemma withinLevels_step:
  "x \<in> withinLevels read start k \<Longrightarrow> set (contributes read (Some x)) \<subseteq> withinLevels read start (Suc k)"
  by auto

lemma withinLevels_0: "withinLevels read start 0 = {}"
  by simp

declare withinLevels.simps [simp del]

lemma walk_levels:
  assumes "retrieveAncestorForResourceByID read depth fuel pending acc = Some xs"
    and "depth = enat d"
    and "\<forall>n \<in> set pending. n = start \<or> (\<exists>x. n = Some x \<and> x \<in> set acc \<and> x \<in> withinLevels read start (d - 1))"
    and "set acc \<subseteq> withinLevels read start (length acc)"
    and "set acc \<subseteq> withinLevels read start (max 1 d)"
  shows "set xs \<subseteq> withinLevels read start (max 1 d)"
  using assms
proof (induction read depth fuel pending acc rule: retrieveAncestorForResourceByID.induct)
  case (1 read depth fuel acc)
  then show ?case by simp
next
  case (2 read depth n pending acc)
  then show ?case by simp
next
  case (3 read depth fuel n pending acc)
  let ?W = "withinLevels read start"
  let ?cs = "read n"
  let ?acc' = "pushUnseen acc ?cs"
  have tail: "\<forall>m \<in> set pending. m = start \<or> (\<exists>x. m = Some x \<and> x \<in> set acc \<and> x \<in> ?W (d - 1))"
    using "3.prems"(3) by simp
  show ?case
  proof (cases "?cs = [] \<or> SYSTEM \<in> set ?cs")
    case True
    then have "retrieveAncestorForResourceByID read depth fuel pending acc = Some xs"
      using "3.prems"(1) by (simp add: Let_def)
    then show ?thesis
      using "3.IH"(1) [OF refl True _ "3.prems"(2) tail "3.prems"(4) "3.prems"(5)] by simp
  next
    case False
    then have cs: "contributes read n = ?cs" by (simp add: contributes_def)
    have n: "n = start \<or> (\<exists>x. n = Some x \<and> x \<in> set acc \<and> x \<in> ?W (d - 1))"
      using "3.prems"(3) by simp
    have step: "set ?cs \<subseteq> ?W (Suc (length acc))"
    proof (rule disjE [OF n])
      assume "n = start"
      then show ?thesis using withinLevels_first [of read start "length acc"] cs by simp
    next
      assume "\<exists>x. n = Some x \<and> x \<in> set acc \<and> x \<in> ?W (d - 1)"
      then obtain x where x: "n = Some x" "x \<in> set acc" by blast
      then have "x \<in> ?W (length acc)" using "3.prems"(4) by blast
      then show ?thesis using withinLevels_step [of x read start "length acc"] cs x by simp
    qed
    have bound: "set ?cs \<subseteq> ?W (max 1 d)"
    proof (rule disjE [OF n])
      assume "n = start"
      then have "set ?cs \<subseteq> ?W (Suc 0)" using withinLevels_first [of read start 0] cs by simp
      moreover have "?W (Suc 0) \<subseteq> ?W (max 1 d)" by (rule withinLevels_mono) simp
      ultimately show ?thesis by blast
    next
      assume "\<exists>x. n = Some x \<and> x \<in> set acc \<and> x \<in> ?W (d - 1)"
      then obtain x where x: "n = Some x" "x \<in> ?W (d - 1)" by blast
      then have "d - 1 \<noteq> 0" by (cases "d - 1") (auto simp: withinLevels_0)
      then have d: "Suc (d - 1) = max 1 d" by simp
      have "set ?cs \<subseteq> ?W (Suc (d - 1))"
        using withinLevels_step [OF x(2)] cs x(1) by (simp del: withinLevels.simps)
      then show ?thesis unfolding d .
    qed
    have len: "length acc \<le> length ?acc'" by (rule pushUnseen_length)
    have inv1: "set ?acc' \<subseteq> ?W (length ?acc')"
    proof (cases "set ?cs \<subseteq> set acc")
      case True
      then have "set ?acc' = set acc" by (auto simp: pushUnseen_set)
      then show ?thesis using "3.prems"(4) withinLevels_mono [OF len, of read start] by blast
    next
      case False
      then have "Suc (length acc) \<le> length ?acc'" using pushUnseen_grows [of ?cs acc] by simp
      then have "?W (Suc (length acc)) \<subseteq> ?W (length ?acc')" by (rule withinLevels_mono)
      moreover have "?W (length acc) \<subseteq> ?W (length ?acc')" using len by (rule withinLevels_mono)
      ultimately show ?thesis using step "3.prems"(4) by (auto simp: pushUnseen_set)
    qed
    have inv2: "set ?acc' \<subseteq> ?W (max 1 d)"
      using bound "3.prems"(5) by (auto simp: pushUnseen_set)
    have tail': "\<forall>m \<in> set pending. m = start \<or> (\<exists>x. m = Some x \<and> x \<in> set ?acc' \<and> x \<in> ?W (d - 1))"
      using tail by (auto simp: pushUnseen_set)
    show ?thesis
    proof (cases "depth \<le> enat (length ?acc')")
      case True
      then have "retrieveAncestorForResourceByID read depth fuel pending ?acc' = Some xs"
        using "3.prems"(1) False by (simp add: Let_def)
      then show ?thesis
        using "3.IH"(2) [OF refl False refl True _ "3.prems"(2) tail' inv1 inv2] by simp
    next
      case stop: False
      then have run: "retrieveAncestorForResourceByID read depth fuel (pending @ map Some ?cs) ?acc' = Some xs"
        using "3.prems"(1) False by (simp add: Let_def)
      from stop "3.prems"(2) have "length ?acc' \<le> d - 1" by simp
      then have "?W (length ?acc') \<subseteq> ?W (d - 1)" by (rule withinLevels_mono)
      then have new: "\<forall>c \<in> set ?cs. c \<in> set ?acc' \<and> c \<in> ?W (d - 1)"
        using inv1 by (auto simp: pushUnseen_set)
      have queue: "\<forall>m \<in> set (pending @ map Some ?cs).
          m = start \<or> (\<exists>x. m = Some x \<and> x \<in> set ?acc' \<and> x \<in> ?W (d - 1))"
        using tail' new by auto
      show ?thesis
        using "3.IH"(3) [OF refl False refl stop run "3.prems"(2) queue inv1 inv2] by simp
    qed
  qed
qed

lemma walk_within_depth:
  assumes "retrieveAncestorForResourceByID read (enat d) fuel [start] [] = Some xs"
  shows "set xs \<subseteq> withinLevels read start (max 1 d)"
  using walk_levels [OF assms refl, of start] by (simp add: withinLevels_0)

lemma walk_terminates:
  assumes "wf r"
    and "\<And>n c. c \<in> set (read n) \<Longrightarrow> (Some c, n) \<in> r"
  shows "\<exists>fuel xs. retrieveAncestorForResourceByID read depth fuel pending acc = Some xs"
  using wf_mult [OF assms(1)]
proof (induction "mset pending" arbitrary: pending acc rule: wf_induct_rule)
  case less
  show ?case
  proof (cases pending)
    case Nil
    then show ?thesis by simp
  next
    case (Cons n rest)
    have smaller: "(mset (rest @ map Some cs), mset pending) \<in> mult r"
      if "set cs \<subseteq> set (read n)" for cs
    proof -
      have "\<forall>k \<in> set_mset (mset (map Some cs)). \<exists>j \<in> set_mset {#n#}. (k, j) \<in> r"
        using that assms(2) by auto
      then have "(mset rest + mset (map Some cs), mset rest + {#n#}) \<in> mult r"
        by (intro one_step_implies_mult) simp_all
      then show ?thesis using Cons by simp
    qed
    obtain k1 xs1 where run1:
      "retrieveAncestorForResourceByID read depth k1 rest acc = Some xs1"
      using less [of rest acc] smaller [of "[]"] by auto
    obtain k2 xs2 where run2:
      "retrieveAncestorForResourceByID read depth k2 rest (pushUnseen acc (read n)) = Some xs2"
      using less [of rest "pushUnseen acc (read n)"] smaller [of "[]"] by auto
    obtain k3 xs3 where run3:
      "retrieveAncestorForResourceByID read depth k3 (rest @ map Some (read n))
         (pushUnseen acc (read n)) = Some xs3"
      using less [of "rest @ map Some (read n)" "pushUnseen acc (read n)"] smaller [of "read n"]
      by auto
    have "\<exists>xs. retrieveAncestorForResourceByID read depth (Suc (k1 + k2 + k3)) (n # rest) acc = Some xs"
      using walk_fuel_mono [OF run1, of "k2 + k3"] walk_fuel_mono [OF run2, of "k1 + k3"]
        walk_fuel_mono [OF run3, of "k1 + k2"]
      by (simp add: Let_def add.commute add.left_commute)
    then show ?thesis using Cons by blast
  qed
qed

lemma finite_memberRelation: "finite (memberRelation es)"
proof -
  have "memberRelation es \<subseteq> (\<lambda>e. (fst e, snd (snd e))) ` set es"
    by (force simp: memberRelation_def)
  then show ?thesis by (rule finite_subset) simp
qed

lemma objects_in_relation:
  "c \<in> set (retrieveObjectOfRelationshipWithSubject es n isMember) \<Longrightarrow>
   (Some c, n) \<in> inv_image ((memberRelation es)\<inverse>) the"
  by (cases n) (auto simp: retrieveObjectOfRelationshipWithSubject_def memberRelation_def inv_image_def)

lemma subjects_in_relation:
  "c \<in> set (retrieveSubjectOfRelationshipWithObject es n isMember) \<Longrightarrow>
   (Some c, n) \<in> inv_image (memberRelation es) the"
  by (cases n) (auto simp: retrieveSubjectOfRelationshipWithObject_def memberRelation_def inv_image_def)

lemma walkUp_terminates:
  assumes "resourceRelationshipDatastore this = Some es" and "acyclic (memberRelation es)"
  shows "\<exists>fuel xs. walkHierarchyTreeUpward this fuel start depth = Some xs"
proof -
  have "wf (inv_image ((memberRelation es)\<inverse>) the)"
    using finite_acyclic_wf_converse [OF finite_memberRelation assms(2)] by (rule wf_inv_image)
  from walk_terminates [OF this objects_in_relation]
  show ?thesis using assms(1) by (simp add: walkHierarchyTreeUpward_def)
qed

lemma walkDown_terminates:
  assumes "\<And>es. resourceRelationshipDatastore this = Some es \<Longrightarrow> acyclic (memberRelation es)"
  shows "\<exists>fuel xs. walkHierarchyTreeDownward this fuel start depth = Some xs"
proof (cases "resourceRelationshipDatastore this")
  case None
  then show ?thesis by (simp add: walkHierarchyTreeDownward_def)
next
  case (Some es)
  have "wf (inv_image (memberRelation es) the)"
    using finite_acyclic_wf [OF finite_memberRelation assms [OF Some]] by (rule wf_inv_image)
  from walk_terminates [OF this subjects_in_relation]
  show ?thesis using Some by (simp add: walkHierarchyTreeDownward_def)
qed

lemma pushUnseen_distinct: "distinct acc \<Longrightarrow> distinct (pushUnseen acc cs)"
  by (induction cs arbitrary: acc) auto

lemma walk_distinct:
  "retrieveAncestorForResourceByID read depth fuel pending acc = Some xs \<Longrightarrow> distinct acc \<Longrightarrow>
   distinct xs"
proof (induction read depth fuel pending acc rule: retrieveAncestorForResourceByID.induct)
  case (1 read depth fuel acc)
  then show ?case by simp
next
  case (2 read depth n pending acc)
  then show ?case by simp
next
  case (3 read depth fuel n pending acc)
  then show ?case
    by (auto simp: Let_def pushUnseen_distinct split: if_splits)
qed

lemma walk_length:
  "retrieveAncestorForResourceByID read depth fuel pending acc = Some xs \<Longrightarrow>
   length acc \<le> length xs"
  using walk_prefix [of read depth fuel pending acc xs] by auto

text \<open>
  What \<open>depth\<close> is compared with is the number of identifiers collected so far.  A walk
  that answers fewer than \<open>depth\<close> identifiers was never cut short: it answers what the
  walk without a bound answers.
\<close>

lemma walk_below_depth:
  "retrieveAncestorForResourceByID read (enat d) fuel pending acc = Some xs \<Longrightarrow> length xs < d \<Longrightarrow>
   retrieveAncestorForResourceByID read \<infinity> fuel pending acc = Some xs"
proof (induction read "enat d" fuel pending acc rule: retrieveAncestorForResourceByID.induct)
  case (1 read fuel acc)
  then show ?case by simp
next
  case (2 read n pending acc)
  then show ?case by simp
next
  case (3 read fuel n pending acc)
  show ?case
  proof (cases "read n = [] \<or> SYSTEM \<in> set (read n)")
    case True
    with 3 show ?thesis by simp
  next
    case False
    show ?thesis
    proof (cases "enat d \<le> enat (length (pushUnseen acc (read n)))")
      case True
      with False "3.prems"(1) have
        "retrieveAncestorForResourceByID read (enat d) fuel pending (pushUnseen acc (read n)) = Some xs"
        by (simp add: Let_def)
      then have "length (pushUnseen acc (read n)) \<le> length xs" by (rule walk_length)
      with True "3.prems"(2) show ?thesis by simp
    next
      case uncut: False
      with False "3.prems"(1) have run:
        "retrieveAncestorForResourceByID read (enat d) fuel (pending @ map Some (read n))
           (pushUnseen acc (read n)) = Some xs"
        by (simp add: Let_def)
      have "retrieveAncestorForResourceByID read \<infinity> fuel (pending @ map Some (read n))
           (pushUnseen acc (read n)) = Some xs"
        using "3.hyps"(3) [OF refl False refl uncut run "3.prems"(2)] .
      with False show ?thesis by (simp add: Let_def)
    qed
  qed
qed

section \<open>Retrieve authorization\<close>

lemma filter_member_empty:
  "(length (filter (\<lambda>x. x \<in> set R) (A @ B)) = 0) = ((set A \<union> set B) \<inter> set R = {})"
  by (auto simp: filter_empty_conv)

lemmas walk_eval =
  walkHierarchyTreeUpward_def walkHierarchyTreeDownward_def
  retrieveObjectOfRelationshipWithSubject_def retrieveSubjectOfRelationshipWithObject_def
  first_def isMember_def SYSTEM_def eval_nat_numeral Let_def

lemma verifyThatUserCanRetrieveResource_unfolded:
  "verifyThatUserCanRetrieveResource this fuel userID resourceID =
     (case resourceRelationshipDatastore this of
        None \<Rightarrow> Some True
      | Some es \<Rightarrow>
          (case walkHierarchyTreeUpward this fuel (Some userID) \<infinity> of
             None \<Rightarrow> None
           | Some A \<Rightarrow>
          (case walkHierarchyTreeDownward this fuel (first A) \<infinity> of
             None \<Rightarrow> None
           | Some B \<Rightarrow>
          (case walkHierarchyTreeUpward this fuel (Some resourceID) \<infinity> of
             None \<Rightarrow> None
           | Some R \<Rightarrow> Some ((set A \<union> set B) \<inter> set R \<noteq> {})))))"
  unfolding verifyThatUserCanRetrieveResource_def Let_def filter_member_empty
  by (simp split: option.splits)

text \<open>
  C1.  Without a relationship store \<open>verifyThatUserCanRetrieveResource\<close> allows.  With one,
  it waits for \<open>A = walkUp(userID)\<close>, \<open>B = walkDown(A[0])\<close> and \<open>R = walkUp(resourceID)\<close>;
  once the three have resolved it answers, and it allows exactly when \<open>(A \<union> B) \<inter> R\<close> is
  not empty, so that an empty intersection is a denial.  Whenever it answers, the answer is
  "allowed" if and only if there is no relationship store or that intersection is not empty.
\<close>

theorem verifyThatUserCanRetrieveResource_allowed_iff:
  "(resourceRelationshipDatastore this = None \<longrightarrow>
      verifyThatUserCanRetrieveResource this fuel userID resourceID = Some True) \<and>
   (\<forall>es A B R.
      resourceRelationshipDatastore this = Some es \<and>
      walkHierarchyTreeUpward this fuel (Some userID) \<infinity> = Some A \<and>
      walkHierarchyTreeDownward this fuel (first A) \<infinity> = Some B \<and>
      walkHierarchyTreeUpward this fuel (Some resourceID) \<infinity> = Some R \<longrightarrow>
      verifyThatUserCanRetrieveResource this fuel userID resourceID =
        Some ((set A \<union> set B) \<inter> set R \<noteq> {})) \<and>
   (\<forall>allowed.
      verifyThatUserCanRetrieveResource this fuel userID resourceID = Some allowed \<longrightarrow>
      allowed =
        (resourceRelationshipDatastore this = None \<or>
         (\<exists>A B R.
            walkHierarchyTreeUpward this fuel (Some userID) \<infinity> = Some A \<and>
            walkHierarchyTreeDownward this fuel (first A) \<infinity> = Some B \<and>
            walkHierarchyTreeUpward this fuel (Some resourceID) \<infinity> = Some R \<and>
            (set A \<union> set B) \<inter> set R \<noteq> {})))"
proof (intro conjI allI impI)
  assume "resourceRelationshipDatastore this = None"
  then show "verifyThatUserCanRetrieveResource this fuel userID resourceID = Some True"
    by (simp add: verifyThatUserCanRetrieveResource_unfolded)
next
  fix es A B R
  assume "resourceRelationshipDatastore this = Some es \<and>
      walkHierarchyTreeUpward this fuel (Some userID) \<infinity> = Some A \<and>
      walkHierarchyTreeDownward this fuel (first A) \<infinity> = Some B \<and>
      walkHierarchyTreeUpward this fuel (Some resourceID) \<infinity> = Some R"
  then show "verifyThatUserCanRetrieveResource this fuel userID resourceID =
      Some ((set A \<union> set B) \<inter> set R \<noteq> {})"
    by (simp add: verifyThatUserCanRetrieveResource_unfolded)
next
  fix allowed
  assume "verifyThatUserCanRetrieveResource this fuel userID resourceID = Some allowed"
  then show "allowed =
      (resourceRelationshipDatastore this = None \<or>
       (\<exists>A B R.
          walkHierarchyTreeUpward this fuel (Some userID) \<infinity> = Some A \<and>
          walkHierarchyTreeDownward this fuel (first A) \<infinity> = Some B \<and>
          walkHierarchyTreeUpward this fuel (Some resourceID) \<infinity> = Some R \<and>
          (set A \<union> set B) \<inter> set R \<noteq> {}))"
    by (auto simp: verifyThatUserCanRetrieveResource_unfolded split: option.splits)
qed

text \<open>
  In the hierarchy of two trees \<open>userU\<close> may retrieve \<open>resourceR\<close> of its own
  organisation, and \<open>userV\<close> of the other tree may not.
\<close>

theorem verifyThatUserCanRetrieveResource_allowed_iff_witness:
  "verifyThatUserCanRetrieveResource twoTrees 5 ''userU'' ''resourceR'' = Some True \<and>
   verifyThatUserCanRetrieveResource twoTrees 5 ''userV'' ''resourceR'' = Some False"
proof -
  have store: "resourceRelationshipDatastore twoTrees = Some
        [(''orgA'', isMember, SYSTEM), (''userU'', isMember, ''orgA''),
         (''resourceR'', isMember, ''orgA''), (''orgB'', isMember, SYSTEM),
         (''userV'', isMember, ''orgB'')]"
    by (simp add: twoTrees_def)
  have R: "walkHierarchyTreeUpward twoTrees 5 (Some ''resourceR'') \<infinity> = Some [''orgA'']"
    by (simp add: twoTrees_def walk_eval)
  have A: "walkHierarchyTreeUpward twoTrees 5 (Some ''userU'') \<infinity> = Some [''orgA'']"
    by (simp add: twoTrees_def walk_eval)
  have B: "walkHierarchyTreeDownward twoTrees 5 (first [''orgA'']) \<infinity> =
      Some [''userU'', ''resourceR'']"
    by (simp add: twoTrees_def walk_eval)
  have A': "walkHierarchyTreeUpward twoTrees 5 (Some ''userV'') \<infinity> = Some [''orgB'']"
    by (simp add: twoTrees_def walk_eval)
  have B': "walkHierarchyTreeDownward twoTrees 5 (first [''orgB'']) \<infinity> = Some [''userV'']"
    by (simp add: twoTrees_def walk_eval)
  have "verifyThatUserCanRetrieveResource twoTrees 5 ''userU'' ''resourceR'' =
      Some ((set [''orgA''] \<union> set [''userU'', ''resourceR'']) \<inter> set [''orgA''] \<noteq> {})"
    using verifyThatUserCanRetrieveResource_allowed_iff
      [THEN conjunct2, THEN conjunct1, rule_format, OF conjI [OF store conjI [OF A conjI [OF B R]]]] .
  moreover have "verifyThatUserCanRetrieveResource twoTrees 5 ''userV'' ''resourceR'' =
      Some ((set [''orgB''] \<union> set [''userV'']) \<inter> set [''orgA''] \<noteq> {})"
    using verifyThatUserCanRetrieveResource_allowed_iff
      [THEN conjunct2, THEN conjunct1, rule_format, OF conjI [OF store conjI [OF A' conjI [OF B' R]]]] .
  ultimately show ?thesis by simp
qed

section \<open>The depth bound of the walks\<close>




text \<open>
  What every step of the walk keeps, it has kept when the walk answers.
\<close>

lemma inOrder_invariant:
  assumes run: "retrieveAncestorForResourceByIDInOrder read depth resolutions pending acc = Some xs"
    and init: "I pending acc"
    and skip: "\<And>pending acc i. I pending acc \<Longrightarrow> i < length pending \<Longrightarrow>
        read (pending ! i) = [] \<or> SYSTEM \<in> set (read (pending ! i)) \<Longrightarrow>
        I (take i pending @ drop (Suc i) pending) acc"
    and cut: "\<And>pending acc i. I pending acc \<Longrightarrow> i < length pending \<Longrightarrow>
        read (pending ! i) \<noteq> [] \<Longrightarrow> SYSTEM \<notin> set (read (pending ! i)) \<Longrightarrow>
        depth \<le> enat (length (pushUnseen acc (read (pending ! i)))) \<Longrightarrow>
        I (take i pending @ drop (Suc i) pending) (pushUnseen acc (read (pending ! i)))"
    and descend: "\<And>pending acc i. I pending acc \<Longrightarrow> i < length pending \<Longrightarrow>
        read (pending ! i) \<noteq> [] \<Longrightarrow> SYSTEM \<notin> set (read (pending ! i)) \<Longrightarrow>
        \<not> depth \<le> enat (length (pushUnseen acc (read (pending ! i)))) \<Longrightarrow>
        I (take i pending @ drop (Suc i) pending @ map Some (read (pending ! i)))
          (pushUnseen acc (read (pending ! i)))"
  shows "I [] xs"
  using run init
proof (induction resolutions arbitrary: pending acc)
  case Nil
  then show ?case by (cases pending) simp_all
next
  case (Cons chosen resolutions)
  show ?case
  proof (cases pending)
    case Nil
    with Cons.prems show ?thesis by simp
  next
    case (Cons call calls)
    let ?i = "chosen mod length pending"
    let ?cs = "read (pending ! ?i)"
    let ?others = "take ?i pending @ drop (Suc ?i) pending"
    have i: "?i < length pending" using Cons by simp
    show ?thesis
    proof (cases "?cs = [] \<or> SYSTEM \<in> set ?cs")
      case True
      then have "retrieveAncestorForResourceByIDInOrder read depth resolutions ?others acc = Some xs"
        using Cons.prems(1) Cons by (simp add: Let_def)
      moreover have "I ?others acc"
        using Cons.prems(2) i True by (rule skip)
      ultimately show ?thesis by (rule Cons.IH)
    next
      case False
      then have good: "?cs \<noteq> []" "SYSTEM \<notin> set ?cs" by simp_all
      show ?thesis
      proof (cases "depth \<le> enat (length (pushUnseen acc ?cs))")
        case True
        then have "retrieveAncestorForResourceByIDInOrder read depth resolutions ?others
            (pushUnseen acc ?cs) = Some xs"
          using Cons.prems(1) Cons False by (simp add: Let_def)
        moreover have "I ?others (pushUnseen acc ?cs)"
          using Cons.prems(2) i good True by (rule cut)
        ultimately show ?thesis by (rule Cons.IH)
      next
        case uncut: False
        then have "retrieveAncestorForResourceByIDInOrder read depth resolutions
            (?others @ map Some ?cs) (pushUnseen acc ?cs) = Some xs"
          using Cons.prems(1) Cons False by (simp add: Let_def)
        moreover have "I (?others @ map Some ?cs) (pushUnseen acc ?cs)"
          using descend [OF Cons.prems(2) i good uncut] by simp
        ultimately show ?thesis by (rule Cons.IH)
      qed
    qed
  qed
qed

lemma inOrder_prefix:
  assumes "retrieveAncestorForResourceByIDInOrder read depth resolutions pending acc = Some xs"
  shows "\<exists>ys. xs = acc @ ys"
proof -
  have "(\<lambda>pending list. \<exists>ys. list = acc @ ys) [] xs"
    using assms
  proof (rule inOrder_invariant)
    show "\<exists>ys. acc = acc @ ys" by simp
  next
    fix pending :: "string option list" and list :: "string list" and i
    assume "\<exists>ys. list = acc @ ys"
    then show "\<exists>ys. list = acc @ ys" .
  next
    fix pending :: "string option list" and list i
    assume "\<exists>ys. list = acc @ ys"
    then show "\<exists>ys. pushUnseen list (read (pending ! i)) = acc @ ys"
      using pushUnseen_prefix [of list "read (pending ! i)"] by auto
  next
    fix pending :: "string option list" and list i
    assume "\<exists>ys. list = acc @ ys"
    then show "\<exists>ys. pushUnseen list (read (pending ! i)) = acc @ ys"
      using pushUnseen_prefix [of list "read (pending ! i)"] by auto
  qed
  then show ?thesis .
qed




















section \<open>The sentinel\<close>






section \<open>Update authorization against retrieve authorization\<close>

lemma first_append: "xs \<noteq> [] \<Longrightarrow> first (xs @ ys) = first xs"
  by (cases xs) (simp_all add: first_def)

lemma walk_first_read:
  assumes "retrieveAncestorForResourceByID read \<infinity> fuel [start] [] = Some xs"
  shows "first xs = first (contributes read start) \<and> set (contributes read start) \<subseteq> set xs"
proof (cases fuel)
  case 0
  with assms show ?thesis by simp
next
  case (Suc k)
  show ?thesis
  proof (cases "read start = [] \<or> SYSTEM \<in> set (read start)")
    case True
    then have "xs = []" using assms Suc by simp
    with True show ?thesis by (auto simp: contributes_def)
  next
    case False
    then have "retrieveAncestorForResourceByID read \<infinity> k (map Some (read start))
        (pushUnseen [] (read start)) = Some xs"
      using assms Suc by (simp add: Let_def)
    then obtain ys where xs: "xs = pushUnseen [] (read start) @ ys"
      using walk_prefix by blast
    have "pushUnseen [] (read start) \<noteq> []"
      using False pushUnseen_set [of "[]" "read start"] by auto
    then have "first xs = first (read start)"
      using False xs by (simp add: first_append pushUnseen_first)
    moreover have "set (read start) \<subseteq> set xs"
      using xs by (simp add: pushUnseen_set)
    ultimately show ?thesis using False by (simp add: contributes_def)
  qed
qed

lemma verifyThatUserCanUpdateResource_decision:
  "verifyThatUserCanUpdateResource this fuel userID resourceID =
     (case resourceRelationshipDatastore this of
        None \<Rightarrow> Some True
      | Some es \<Rightarrow>
          (case walkHierarchyTreeDownward this fuel
                  (first (retrieveObjectOfRelationshipWithSubject es (Some userID) isMember)) \<infinity> of
             None \<Rightarrow> None
           | Some B \<Rightarrow>
          (case walkHierarchyTreeUpward this fuel (Some resourceID) \<infinity> of
             None \<Rightarrow> None
           | Some R \<Rightarrow>
               Some ((set (retrieveObjectOfRelationshipWithSubject es (Some userID) isMember) \<union> set B)
                      \<inter> set R \<noteq> {}))))"
  unfolding verifyThatUserCanUpdateResource_def Let_def filter_member_empty
  by (simp split: option.splits)

lemma walkUp_deterministic:
  "walkHierarchyTreeUpward this k start depth = Some xs \<Longrightarrow>
   walkHierarchyTreeUpward this k' start depth = Some ys \<Longrightarrow> xs = ys"
  by (auto simp: walkHierarchyTreeUpward_def split: option.splits dest: walk_deterministic)

lemma walkDown_deterministic:
  "walkHierarchyTreeDownward this k start depth = Some xs \<Longrightarrow>
   walkHierarchyTreeDownward this k' start depth = Some ys \<Longrightarrow> xs = ys"
  by (auto simp: walkHierarchyTreeDownward_def split: option.splits dest: walk_deterministic)

lemma walkUp_fuel_mono:
  "walkHierarchyTreeUpward this k start depth = Some xs \<Longrightarrow>
   walkHierarchyTreeUpward this (k + extra) start depth = Some xs"
  by (auto simp: walkHierarchyTreeUpward_def split: option.splits intro: walk_fuel_mono)

lemma walkDown_fuel_mono:
  "walkHierarchyTreeDownward this k start depth = Some xs \<Longrightarrow>
   walkHierarchyTreeDownward this (k + extra) start depth = Some xs"
  by (auto simp: walkHierarchyTreeDownward_def split: option.splits intro: walk_fuel_mono)

lemma update_allowed_retrieve_not_denied:
  assumes update: "verifyThatUserCanUpdateResource this k userID resourceID = Some True"
    and direct: "\<And>es. resourceRelationshipDatastore this = Some es \<Longrightarrow>
        SYSTEM \<notin> set (retrieveObjectOfRelationshipWithSubject es (Some userID) isMember)"
    and retrieve: "verifyThatUserCanRetrieveResource this k' userID resourceID = Some allowed"
  shows "allowed"
proof (cases "resourceRelationshipDatastore this")
  case None
  with retrieve show ?thesis by (simp add: verifyThatUserCanRetrieveResource_def)
next
  case (Some es)
  let ?P = "retrieveObjectOfRelationshipWithSubject es (Some userID) isMember"
  from update Some obtain B R where
    B: "walkHierarchyTreeDownward this k (first ?P) \<infinity> = Some B" and
    R: "walkHierarchyTreeUpward this k (Some resourceID) \<infinity> = Some R" and
    meet: "(set ?P \<union> set B) \<inter> set R \<noteq> {}"
    by (auto simp: verifyThatUserCanUpdateResource_decision split: option.splits)
  from retrieve Some obtain A B' R' where
    A: "walkHierarchyTreeUpward this k' (Some userID) \<infinity> = Some A" and
    B': "walkHierarchyTreeDownward this k' (first A) \<infinity> = Some B'" and
    R': "walkHierarchyTreeUpward this k' (Some resourceID) \<infinity> = Some R'" and
    allowed: "allowed = ((set A \<union> set B') \<inter> set R' \<noteq> {})"
    by (auto simp: verifyThatUserCanRetrieveResource_unfolded split: option.splits)
  have "retrieveAncestorForResourceByID (\<lambda>n. retrieveObjectOfRelationshipWithSubject es n isMember)
      \<infinity> k' [Some userID] [] = Some A"
    using A Some by (simp add: walkHierarchyTreeUpward_def)
  from walk_first_read [OF this] direct [OF Some]
  have "first A = first ?P" and "set ?P \<subseteq> set A"
    by (simp_all add: contributes_def)
  then have "B' = B" and "R' = R"
    using B B' R R' walkDown_deterministic walkUp_deterministic by metis+
  with meet \<open>set ?P \<subseteq> set A\<close> allowed show ?thesis by blast
qed

lemma verifyRetrieve_returns:
  assumes "\<And>es. resourceRelationshipDatastore this = Some es \<Longrightarrow> acyclic (memberRelation es)"
  shows "\<exists>fuel allowed. verifyThatUserCanRetrieveResource this fuel userID resourceID = Some allowed"
proof (cases "resourceRelationshipDatastore this")
  case None
  then have "verifyThatUserCanRetrieveResource this 0 userID resourceID = Some True"
    by (simp add: verifyThatUserCanRetrieveResource_def)
  then show ?thesis by blast
next
  case (Some es)
  obtain k1 A where "walkHierarchyTreeUpward this k1 (Some userID) \<infinity> = Some A"
    using walkUp_terminates [OF Some assms [OF Some]] by blast
  moreover obtain k2 B where "walkHierarchyTreeDownward this k2 (first A) \<infinity> = Some B"
    using walkDown_terminates [OF assms] by blast
  moreover obtain k3 R where "walkHierarchyTreeUpward this k3 (Some resourceID) \<infinity> = Some R"
    using walkUp_terminates [OF Some assms [OF Some]] by blast
  ultimately have
    "walkHierarchyTreeUpward this (k1 + (k2 + k3)) (Some userID) \<infinity> = Some A"
    "walkHierarchyTreeDownward this (k2 + (k1 + k3)) (first A) \<infinity> = Some B"
    "walkHierarchyTreeUpward this (k3 + (k1 + k2)) (Some resourceID) \<infinity> = Some R"
    by (simp_all only: walkUp_fuel_mono walkDown_fuel_mono)
  then have "verifyThatUserCanRetrieveResource this (k1 + k2 + k3) userID resourceID =
      Some ((set A \<union> set B) \<inter> set R \<noteq> {})"
    using Some by (simp add: verifyThatUserCanRetrieveResource_unfolded add.commute add.left_commute add.assoc)
  then show ?thesis by blast
qed


text \<open>
  C2, as the code has it.  When the direct \<open>is-member\<close> objects of the user do not name
  \<open>SYSTEM\<close>, an update that is allowed means that retrieve is never denied, and on an
  acyclic graph retrieve is allowed; the converse fails in the nested organisation, where
  \<open>userU\<close> may retrieve \<open>resourceR\<close> through the shared ancestor \<open>orgTop\<close> and may not
  update it.
\<close>

theorem update_allowed_implies_retrieve_allowed:
  assumes "verifyThatUserCanUpdateResource this fuel userID resourceID = Some True"
    and "\<forall>es. resourceRelationshipDatastore this = Some es \<longrightarrow>
           SYSTEM \<notin> set (retrieveObjectOfRelationshipWithSubject es (Some userID) isMember)"
  shows "(\<forall>fuel' allowed.
            verifyThatUserCanRetrieveResource this fuel' userID resourceID = Some allowed \<longrightarrow> allowed) \<and>
         ((\<forall>es. resourceRelationshipDatastore this = Some es \<longrightarrow> acyclic (memberRelation es)) \<longrightarrow>
            (\<exists>fuel'. verifyThatUserCanRetrieveResource this fuel' userID resourceID = Some True)) \<and>
         verifyThatUserCanRetrieveResource nestedOrganisation 5 ''userU'' ''resourceR'' = Some True \<and>
         verifyThatUserCanUpdateResource nestedOrganisation 5 ''userU'' ''resourceR'' = Some False"
proof (intro conjI allI impI)
  fix fuel' allowed
  assume "verifyThatUserCanRetrieveResource this fuel' userID resourceID = Some allowed"
  with assms show allowed
    by (intro update_allowed_retrieve_not_denied [of this fuel userID resourceID fuel' allowed]) simp_all
next
  assume "\<forall>es. resourceRelationshipDatastore this = Some es \<longrightarrow> acyclic (memberRelation es)"
  then obtain fuel' allowed where
    run: "verifyThatUserCanRetrieveResource this fuel' userID resourceID = Some allowed"
    using verifyRetrieve_returns [of this userID resourceID] by blast
  with assms have allowed
    by (intro update_allowed_retrieve_not_denied [of this fuel userID resourceID fuel' allowed]) simp_all
  with run show "\<exists>fuel'. verifyThatUserCanRetrieveResource this fuel' userID resourceID = Some True"
    by auto
next
  show "verifyThatUserCanRetrieveResource nestedOrganisation 5 ''userU'' ''resourceR'' = Some True"
    by (simp add: verifyThatUserCanRetrieveResource_unfolded nestedOrganisation_def walk_eval)
next
  show "verifyThatUserCanUpdateResource nestedOrganisation 5 ''userU'' ''resourceR'' = Some False"
    by (simp add: verifyThatUserCanUpdateResource_decision nestedOrganisation_def walk_eval)
qed

text \<open>
  In the hierarchy of two trees \<open>userU\<close> may update \<open>resourceR\<close>, its direct parent is
  \<open>orgA\<close>, and so retrieve is not denied.
\<close>

theorem update_allowed_implies_retrieve_allowed_witness:
  "verifyThatUserCanUpdateResource twoTrees 5 ''userU'' ''resourceR'' = Some True \<and>
   verifyThatUserCanRetrieveResource twoTrees 5 ''userU'' ''resourceR'' \<noteq> Some False"
proof -
  have update: "verifyThatUserCanUpdateResource twoTrees 5 ''userU'' ''resourceR'' = Some True"
    by (simp add: verifyThatUserCanUpdateResource_decision twoTrees_def walk_eval)
  have direct: "\<forall>es. resourceRelationshipDatastore twoTrees = Some es \<longrightarrow>
      SYSTEM \<notin> set (retrieveObjectOfRelationshipWithSubject es (Some ''userU'') isMember)"
    by (auto simp: twoTrees_def walk_eval)
  from update_allowed_implies_retrieve_allowed [OF update direct] update
  show ?thesis by blast
qed

text \<open>
  C2 as stated fails for a user who is a direct member of \<open>SYSTEM\<close>: the update check
  walks down from \<open>SYSTEM\<close> and meets the ancestors of every resource, while the walk up
  that the retrieve check starts from stops at once and leaves it nothing to compare.
\<close>

theorem update_tighter_than_retrieve_counterexample:
  "verifyThatUserCanUpdateResource topLevelUser 5 ''userU'' ''resourceR'' = Some True \<and>
   verifyThatUserCanRetrieveResource topLevelUser 5 ''userU'' ''resourceR'' = Some False"
  by (simp add: verifyThatUserCanUpdateResource_decision verifyThatUserCanRetrieveResource_unfolded
        topLevelUser_def walk_eval)

section \<open>createResource\<close>

lemma createRelationships_resolved:
  "createRelationships this created = (Resolved created', this') \<Longrightarrow> created' = created"
  by (auto simp: createRelationships_def Let_def split: option.splits prod.splits)

lemma tryCreateResource_resolved:
  assumes "tryCreateResource this resourceType NucleusResourceModel resourceAttributes originUserID
      parentNodeID = (Resolved created, this', resourceAttributes')"
  shows "resourceMemberNodeID created = parentNodeID \<and> resourceAuthorID created = originUserID \<and>
         NucleusResourceModel (deleteProperty (deleteProperty resourceAttributes ''ID'') ''meta'')
           originUserID (resourceAttributes ''ID'') = Inr (resource created)"
  using assms
  by (auto simp: tryCreateResource_def Let_def split: sum.splits option.splits prod.splits
        dest!: createRelationships_resolved)

lemma tryCreateResource_attributes:
  "tryCreateResource this resourceType NucleusResourceModel resourceAttributes originUserID
      parentNodeID = (p, this', resourceAttributes') \<Longrightarrow>
   resourceAttributes' = deleteProperty (deleteProperty resourceAttributes ''ID'') ''meta''"
  by (auto simp: tryCreateResource_def Let_def split: sum.splits option.splits prod.splits)


lemmas create_eval =
  createResource_def tryCreateResource_def createRelationships_def invoke_def onDatastore_def
  onRelationships_def thrown_def failure_def falsy_def deleteProperty_def externalError_def
  addItemToHashFieldByName_def addItemToSetByName_def createRelationshipBetweenSubjectAndObject_def
  plainResourceModel_def generateItemKey_def ownProperties_def ownEnumerable_def noFaults_def
  emptyDatastore_def RESOURCE_ID_BY_TYPE_TABLE_NAME_def isAuthored_def

text \<open>
  C3, as the code has it.  A call without a parent node that passes the checks on the
  origin user and the datastore takes the first direct \<open>is-member\<close> object of the origin
  user as the parent.  Without a relationship store, or when that object is missing or
  empty, the call is rejected with a plain \<open>NucleusError\<close> that names the origin user, and
  neither the stores nor the attributes are touched.
\<close>

theorem createResource_resolves_parent:
  assumes "originUserID \<noteq> []" and "datastore this = Some ds" and "falsy parentNodeID"
  shows
    "(resourceRelationshipDatastore this = None \<longrightarrow>
        createResource this resourceType NucleusResourceModel resourceAttributes originUserID
          parentNodeID =
        (Rejected (NucleusError (''Could not retrieve the node which the origin user (''
            @ originUserID @ '') is member of.'') None), this, resourceAttributes)) \<and>
     (\<forall>es. resourceRelationshipDatastore this = Some es \<and>
           falsy (first (retrieveObjectOfRelationshipWithSubject es (Some originUserID) isMember)) \<longrightarrow>
        createResource this resourceType NucleusResourceModel resourceAttributes originUserID
          parentNodeID =
        (Rejected (NucleusError (''Could not retrieve the node which the origin user (''
            @ originUserID @ '') is member of.'') None), this, resourceAttributes)) \<and>
     (\<forall>es memberNodeID.
        resourceRelationshipDatastore this = Some es \<and>
        first (retrieveObjectOfRelationshipWithSubject es (Some originUserID) isMember) =
          Some memberNodeID \<and> memberNodeID \<noteq> [] \<longrightarrow>
        createResource this resourceType NucleusResourceModel resourceAttributes originUserID
          parentNodeID =
        tryCreateResource this resourceType NucleusResourceModel resourceAttributes originUserID
          memberNodeID \<and>
        (\<forall>created this' resourceAttributes'.
           createResource this resourceType NucleusResourceModel resourceAttributes originUserID
             parentNodeID = (Resolved created, this', resourceAttributes') \<longrightarrow>
           resourceMemberNodeID created = memberNodeID))"
proof (intro conjI allI impI)
  assume "resourceRelationshipDatastore this = None"
  with assms show "createResource this resourceType NucleusResourceModel resourceAttributes
      originUserID parentNodeID =
    (Rejected (NucleusError (''Could not retrieve the node which the origin user (''
        @ originUserID @ '') is member of.'') None), this, resourceAttributes)"
    by (simp add: createResource_def)
next
  fix es
  assume "resourceRelationshipDatastore this = Some es \<and>
    falsy (first (retrieveObjectOfRelationshipWithSubject es (Some originUserID) isMember))"
  with assms show "createResource this resourceType NucleusResourceModel resourceAttributes
      originUserID parentNodeID =
    (Rejected (NucleusError (''Could not retrieve the node which the origin user (''
        @ originUserID @ '') is member of.'') None), this, resourceAttributes)"
    by (simp add: createResource_def)
next
  fix es memberNodeID
  assume found: "resourceRelationshipDatastore this = Some es \<and>
    first (retrieveObjectOfRelationshipWithSubject es (Some originUserID) isMember) =
      Some memberNodeID \<and> memberNodeID \<noteq> []"
  with assms show run: "createResource this resourceType NucleusResourceModel resourceAttributes
      originUserID parentNodeID =
    tryCreateResource this resourceType NucleusResourceModel resourceAttributes originUserID
      memberNodeID"
    by (simp add: createResource_def falsy_def)
  fix created this' resourceAttributes'
  assume "createResource this resourceType NucleusResourceModel resourceAttributes originUserID
      parentNodeID = (Resolved created, this', resourceAttributes')"
  with run show "resourceMemberNodeID created = memberNodeID"
    using tryCreateResource_resolved by metis
qed

text \<open>
  In the hierarchy of two trees \<open>userU\<close> creates a resource without naming a parent, and
  the resource becomes member of \<open>orgA\<close>.
\<close>

theorem createResource_resolves_parent_witness:
  "\<exists>created this' resourceAttributes'.
     createResource twoTrees ''Dummy'' (plainResourceModel ''Dummy'') [''name'' \<mapsto> JStr ''x'']
       ''userU'' None = (Resolved created, this', resourceAttributes') \<and>
     resourceMemberNodeID created = ''orgA''"
proof -
  have user: "''userU'' \<noteq> []" by simp
  have store: "datastore twoTrees = Some emptyDatastore" by (simp add: twoTrees_def)
  have parent: "falsy None" by (simp add: falsy_def)
  have found: "resourceRelationshipDatastore twoTrees = Some
        [(''orgA'', isMember, SYSTEM), (''userU'', isMember, ''orgA''),
         (''resourceR'', isMember, ''orgA''), (''orgB'', isMember, SYSTEM),
         (''userV'', isMember, ''orgB'')] \<and>
      first (retrieveObjectOfRelationshipWithSubject
        [(''orgA'', isMember, SYSTEM), (''userU'', isMember, ''orgA''),
         (''resourceR'', isMember, ''orgA''), (''orgB'', isMember, SYSTEM),
         (''userV'', isMember, ''orgB'')] (Some ''userU'') isMember) = Some ''orgA'' \<and> ''orgA'' \<noteq> []"
    by (simp add: twoTrees_def walk_eval)
  have run: "createResource twoTrees ''Dummy'' (plainResourceModel ''Dummy'') [''name'' \<mapsto> JStr ''x'']
       ''userU'' None =
     tryCreateResource twoTrees ''Dummy'' (plainResourceModel ''Dummy'') [''name'' \<mapsto> JStr ''x'']
       ''userU'' ''orgA''"
    using createResource_resolves_parent [OF user store parent] found by blast
  have "\<exists>created this' resourceAttributes'.
     tryCreateResource twoTrees ''Dummy'' (plainResourceModel ''Dummy'') [''name'' \<mapsto> JStr ''x'']
       ''userU'' ''orgA'' = (Resolved created, this', resourceAttributes') \<and>
     resourceMemberNodeID created = ''orgA''"
    by (simp add: twoTrees_def create_eval Let_def)
  with run show ?thesis by simp
qed

text \<open>
  C3 as stated fails on the kind of the error: \<open>userX\<close> is member of nothing, and the call
  is rejected with the base \<open>NucleusError\<close>, which is not the undefined-context error.
\<close>

theorem createResource_no_parent_counterexample:
  "fst (createResource twoTrees ''Dummy'' (plainResourceModel ''Dummy'') [''name'' \<mapsto> JStr ''x'']
          ''userX'' None) =
     Rejected (NucleusError
       ''Could not retrieve the node which the origin user (userX) is member of.'' None) \<and>
   \<not> undefinedContext
     (fst (createResource twoTrees ''Dummy'' (plainResourceModel ''Dummy'') [''name'' \<mapsto> JStr ''x'']
             ''userX'' None))"
  by (simp add: createResource_def twoTrees_def walk_eval falsy_def undefinedContext_def)

text \<open>
  What \<open>createResource\<close> does with a failing record write, once the checks are passed and
  the constructor has built the resource: a write that throws is wrapped by the \<open>catch\<close>
  block, a write that rejects is passed on as it is.
\<close>

lemma tryCreateResource_record_write_fails:
  assumes "NucleusResourceModel (deleteProperty (deleteProperty resourceAttributes ''ID'') ''meta'')
      originUserID (resourceAttributes ''ID'') = Inr r"
  shows "storeFaults this AddItemToHashFieldByName = Some (Throws error) \<Longrightarrow>
         fst (tryCreateResource this resourceType NucleusResourceModel resourceAttributes originUserID
                parentNodeID) = Rejected (externalError resourceType error)"
    and "storeFaults this AddItemToHashFieldByName = Some (Rejects error) \<Longrightarrow>
         storeFaults this AddItemToSetByName = None \<Longrightarrow>
         fst (tryCreateResource this resourceType NucleusResourceModel resourceAttributes originUserID
                parentNodeID) = Rejected (Underlying error)"
  using assms
  by (simp_all add: tryCreateResource_def Let_def invoke_def thrown_def onDatastore_def
        split: prod.splits)

text \<open>
  C4, where the code departs from it.  \<open>userU\<close> creates a \<open>Dummy\<close> under \<open>orgA\<close>.  When
  the record write rejects with \<open>ECONNRESET\<close>, or the write of the \<open>is-member\<close> edge throws
  it, the call is rejected with that very error, without the resource type; only when the
  record write throws while it is being called is the error wrapped into the
  \<open>NucleusError\<close> that names \<open>Dummy\<close> and carries the cause.
\<close>

theorem createResource_store_rejection_unwrapped:
  "fst (createResource
          (twoTrees\<lparr>storeFaults := (\<lambda>call. if call = AddItemToHashFieldByName
                                              then Some (Rejects ''ECONNRESET'') else None)\<rparr>)
          ''Dummy'' (plainResourceModel ''Dummy'') [''name'' \<mapsto> JStr ''x''] ''userU''
          (Some ''orgA'')) = Rejected (Underlying ''ECONNRESET'') \<and>
   fst (createResource
          (twoTrees\<lparr>storeFaults := (\<lambda>call. if call = CreateRelationshipBetweenSubjectAndObject isMember
                                              then Some (Throws ''ECONNRESET'') else None)\<rparr>)
          ''Dummy'' (plainResourceModel ''Dummy'') [''name'' \<mapsto> JStr ''x''] ''userU''
          (Some ''orgA'')) = Rejected (Underlying ''ECONNRESET'') \<and>
   fst (createResource
          (twoTrees\<lparr>storeFaults := (\<lambda>call. if call = AddItemToHashFieldByName
                                              then Some (Throws ''ECONNRESET'') else None)\<rparr>)
          ''Dummy'' (plainResourceModel ''Dummy'') [''name'' \<mapsto> JStr ''x''] ''userU''
          (Some ''orgA'')) =
     Rejected (NucleusError ''Could not create Dummy because of an external error: ECONNRESET''
       (Some ''ECONNRESET''))"
  by (simp add: twoTrees_def create_eval Let_def isMember_def)

section \<open>updatesResourceByID\<close>

lemma updatesResourceByID_resolved:
  assumes "updatesResourceByID this fuel updatedISOTime isoTimeAtWrite resourceType
      NucleusResourceModel resourceID resourceAttributes originUserID =
      (Resolved r, this', resourceAttributes')"
  shows "\<exists>ds stored built.
      datastore this = Some ds \<and>
      hashes ds (generateItemKey resourceType resourceID) = Some stored \<and>
      verifyThatUserCanUpdateResource this fuel originUserID resourceID = Some True \<and>
      resourceAttributes' = deleteProperty (deleteProperty resourceAttributes ''ID'') ''meta'' \<and>
      NucleusResourceModel
        (stored(''meta'' \<mapsto> JObj ([''updatedISOTime'' \<mapsto> JStr updatedISOTime]
                                  ++ ownEnumerable (stored ''meta''))) ++ resourceAttributes')
        originUserID None = Inr built \<and>
      r = built\<lparr>meta := (meta built)(''updatedISOTime'' \<mapsto> JStr isoTimeAtWrite)\<rparr> \<and>
      this' = this\<lparr>datastore := Some (addItemToHashFieldByName ds
                 (generateItemKey resourceType resourceID)
                 ([''meta'' \<mapsto> JObj (meta r)] ++ resourceAttributes'))\<rparr>"
  using assms
  by (auto simp: updatesResourceByID_def Let_def invoke_def failure_def onDatastore_def
        existsAsync_def retrieveAllItemsFromHashByName_def
        split: if_splits option.splits sum.splits prod.splits fault.splits)


lemmas update_eval =
  updatesResourceByID_def verifyThatUserCanUpdateResource_def invoke_def failure_def
  onDatastore_def existsAsync_def retrieveAllItemsFromHashByName_def deleteProperty_def
  addItemToHashFieldByName_def plainResourceModel_def generateItemKey_def ownEnumerable_def
  noFaults_def storedDummy_def storedField_def storedMetaField_def Let_def




text \<open>
  C8, as the code has it.  A successful update leaves the stored ID as it is, hands the
  constructor the stored ID whatever the patch says, and stamps the stored meta block with
  the clock reading taken for the write.  The creation time is kept
  when the constructor carries the \<open>createdISOTime\<close> of the meta block it is given over to
  the resource.  The update time afterwards is that clock reading, whatever was stored: it
  is not earlier than the stored one exactly when the clock is not behind it.
\<close>

theorem update_keeps_identity_and_stamps_clock:
  assumes run: "updatesResourceByID this fuel updatedISOTime isoTimeAtWrite resourceType
      NucleusResourceModel resourceID resourceAttributes originUserID =
      (Resolved r, this', resourceAttributes')"
    and block: "storedField this (generateItemKey resourceType resourceID) ''meta'' =
      Some (JObj block)"
    and created: "block ''createdISOTime'' = Some createdISOTime"
    and carries: "\<forall>given userID reservedID built metaGiven.
      NucleusResourceModel given userID reservedID = Inr built \<and>
      given ''meta'' = Some (JObj metaGiven) \<and>
      metaGiven ''createdISOTime'' = Some createdISOTime \<longrightarrow>
      meta built ''createdISOTime'' = Some createdISOTime"
  shows "storedField this' (generateItemKey resourceType resourceID) ''ID'' =
           storedField this (generateItemKey resourceType resourceID) ''ID'' \<and>
         storedMetaField this' (generateItemKey resourceType resourceID) ''createdISOTime'' =
           Some createdISOTime \<and>
         storedMetaField this (generateItemKey resourceType resourceID) ''createdISOTime'' =
           Some createdISOTime \<and>
         storedMetaField this' (generateItemKey resourceType resourceID) ''updatedISOTime'' =
           Some (JStr isoTimeAtWrite) \<and>
         (\<forall>before.
            storedMetaField this (generateItemKey resourceType resourceID) ''updatedISOTime'' =
              Some (JStr before) \<longrightarrow>
            notLaterThan before isoTimeAtWrite =
              (\<exists>after. storedMetaField this' (generateItemKey resourceType resourceID)
                          ''updatedISOTime'' = Some (JStr after) \<and> notLaterThan before after)) \<and>
         (\<exists>given built.
            NucleusResourceModel given originUserID None = Inr built \<and>
            given ''ID'' = storedField this (generateItemKey resourceType resourceID) ''ID'' \<and>
            ID r = ID built)"
proof -
  let ?key = "generateItemKey resourceType resourceID"
  let ?patch = "resourceAttributes'"
  from updatesResourceByID_resolved [OF run] obtain ds stored built where
    ds: "datastore this = Some ds" and stored: "hashes ds ?key = Some stored" and
    patch: "resourceAttributes' = deleteProperty (deleteProperty resourceAttributes ''ID'') ''meta''" and
    built: "NucleusResourceModel
        (stored(''meta'' \<mapsto> JObj ([''updatedISOTime'' \<mapsto> JStr updatedISOTime]
                                  ++ ownEnumerable (stored ''meta''))) ++ ?patch)
        originUserID None = Inr built" and
    r: "r = built\<lparr>meta := (meta built)(''updatedISOTime'' \<mapsto> JStr isoTimeAtWrite)\<rparr>" and
    this': "this' = this\<lparr>datastore := Some (addItemToHashFieldByName ds ?key
               ([''meta'' \<mapsto> JObj (meta r)] ++ ?patch))\<rparr>"
    by (elim exE conjE) (rule that)
  have noID: "?patch ''ID'' = None" and noMeta: "?patch ''meta'' = None"
    using patch by (simp_all add: deleteProperty_def)
  have meta: "stored ''meta'' = Some (JObj block)"
    using block ds stored by (simp add: storedField_def)
  let ?given = "stored(''meta'' \<mapsto> JObj ([''updatedISOTime'' \<mapsto> JStr updatedISOTime]
                                  ++ ownEnumerable (stored ''meta''))) ++ ?patch"
  let ?merged = "[''updatedISOTime'' \<mapsto> JStr updatedISOTime] ++ block"
  have given: "?given ''meta'' = Some (JObj ?merged)"
    using meta noMeta by (simp add: map_add_def ownEnumerable_def)
  have merged: "?merged ''createdISOTime'' = Some createdISOTime"
    using created by (simp add: map_add_def)
  have kept: "meta built ''createdISOTime'' = Some createdISOTime"
    by (intro carries [rule_format, of ?given originUserID None built ?merged] conjI
          built given merged)
  have after: "storedField this' ?key name =
      (case ([''meta'' \<mapsto> JObj (meta r)] ++ ?patch) name of
         None \<Rightarrow> stored name
       | Some v \<Rightarrow> Some v)" for name
    using ds stored this'
    by (simp add: storedField_def addItemToHashFieldByName_def map_add_def)
  have id: "storedField this' ?key ''ID'' = storedField this ?key ''ID''"
    using after [of "''ID''"] ds stored noID
    by (simp add: storedField_def map_add_def)
  have metaAfter: "storedField this' ?key ''meta'' = Some (JObj (meta r))"
    using after [of "''meta''"] noMeta by (simp add: map_add_def)
  have c1: "storedMetaField this' ?key ''createdISOTime'' = Some createdISOTime"
    using metaAfter kept r by (simp add: storedMetaField_def)
  have c2: "storedMetaField this ?key ''createdISOTime'' = Some createdISOTime"
    using block created by (simp add: storedMetaField_def)
  have u: "storedMetaField this' ?key ''updatedISOTime'' = Some (JStr isoTimeAtWrite)"
    using metaAfter r by (simp add: storedMetaField_def)
  have "?given ''ID'' = storedField this ?key ''ID''"
    using ds stored noID by (simp add: storedField_def map_add_def)
  moreover have "ID r = ID built"
    using r by simp
  ultimately have handed: "\<exists>given built.
      NucleusResourceModel given originUserID None = Inr built \<and>
      given ''ID'' = storedField this ?key ''ID'' \<and> ID r = ID built"
    using built by (intro exI [of _ ?given] exI [of _ built] conjI)
  show ?thesis using id c1 c2 u handed by simp
qed


lemma plainResourceModel_carries:
  "\<forall>given userID reservedID built metaGiven.
      plainResourceModel resourceType given userID reservedID = Inr built \<and>
      given ''meta'' = Some (JObj metaGiven) \<and>
      metaGiven ''createdISOTime'' = Some createdISOTime \<longrightarrow>
      meta built ''createdISOTime'' = Some createdISOTime"
  by (auto simp: plainResourceModel_def ownEnumerable_def Let_def map_add_def)

text \<open>
  \<open>userU\<close> patches the name of \<open>Dummy:r1\<close> in 2031, after its last update of 2030: the
  ID and the creation time of 2020 are the stored ones, and the update time is the clock's.
\<close>

theorem update_keeps_identity_and_stamps_clock_witness:
  "\<exists>r this' resourceAttributes'.
     updatesResourceByID oneRecord 0 ''2031-03-03T08:00:00.000Z'' ''2031-03-03T08:00:00.001Z''
       ''Dummy'' (plainResourceModel ''Dummy'') ''r1'' [''name'' \<mapsto> JStr ''second''] ''userU'' =
       (Resolved r, this', resourceAttributes') \<and>
     storedField this' ''Dummy:r1'' ''ID'' = Some (JStr ''r1'') \<and>
     storedMetaField this' ''Dummy:r1'' ''createdISOTime'' =
       Some (JStr ''2020-05-05T10:00:00.000Z'') \<and>
     storedMetaField this' ''Dummy:r1'' ''updatedISOTime'' =
       Some (JStr ''2031-03-03T08:00:00.001Z'') \<and>
     notLaterThan ''2030-01-01T00:00:00.000Z'' ''2031-03-03T08:00:00.001Z''"
proof -
  have "\<exists>r this' resourceAttributes'.
     updatesResourceByID oneRecord 0 ''2031-03-03T08:00:00.000Z'' ''2031-03-03T08:00:00.001Z''
       ''Dummy'' (plainResourceModel ''Dummy'') ''r1'' [''name'' \<mapsto> JStr ''second''] ''userU'' =
       (Resolved r, this', resourceAttributes')"
    by (simp add: oneRecord_def update_eval)
  then obtain r this' resourceAttributes' where run:
    "updatesResourceByID oneRecord 0 ''2031-03-03T08:00:00.000Z'' ''2031-03-03T08:00:00.001Z''
       ''Dummy'' (plainResourceModel ''Dummy'') ''r1'' [''name'' \<mapsto> JStr ''second''] ''userU'' =
       (Resolved r, this', resourceAttributes')"
    by (elim exE) (rule that)
  have key: "generateItemKey ''Dummy'' ''r1'' = ''Dummy:r1''"
    by (simp add: generateItemKey_def)
  have block: "storedField oneRecord (generateItemKey ''Dummy'' ''r1'') ''meta'' =
      Some (JObj [''createdISOTime'' \<mapsto> JStr ''2020-05-05T10:00:00.000Z'',
                  ''updatedISOTime'' \<mapsto> JStr ''2030-01-01T00:00:00.000Z''])"
    by (simp add: key oneRecord_def storedField_def storedDummy_def)
  have created: "[''createdISOTime'' \<mapsto> JStr ''2020-05-05T10:00:00.000Z'',
                  ''updatedISOTime'' \<mapsto> JStr ''2030-01-01T00:00:00.000Z''] ''createdISOTime'' =
      Some (JStr ''2020-05-05T10:00:00.000Z'')"
    by simp
  have before: "storedField oneRecord ''Dummy:r1'' ''ID'' = Some (JStr ''r1'')"
    by (simp add: oneRecord_def storedField_def storedDummy_def)
  have order: "notLaterThan ''2030-01-01T00:00:00.000Z'' ''2031-03-03T08:00:00.001Z''"
    by simp
  from update_keeps_identity_and_stamps_clock [OF run block created plainResourceModel_carries]
  have "storedField this' ''Dummy:r1'' ''ID'' = storedField oneRecord ''Dummy:r1'' ''ID''"
    and "storedMetaField this' ''Dummy:r1'' ''createdISOTime'' =
       Some (JStr ''2020-05-05T10:00:00.000Z'')"
    and "storedMetaField this' ''Dummy:r1'' ''updatedISOTime'' =
       Some (JStr ''2031-03-03T08:00:00.001Z'')"
    unfolding key by simp_all
  with run before order show ?thesis by simp
qed

text \<open>
  C8 as stated fails when the clock is behind the stored update time: the record was last
  updated in 2030, the update runs with a clock of 2026, and the stored update time goes
  back to 2026.
\<close>

theorem update_time_goes_back_counterexample:
  "resolved (fst (updatesResourceByID oneRecord 0 ''2026-11-03T09:00:00.000Z''
       ''2026-11-03T09:00:00.000Z'' ''Dummy'' (plainResourceModel ''Dummy'') ''r1''
       [''name'' \<mapsto> JStr ''second''] ''userU'')) \<and>
   storedMetaField oneRecord ''Dummy:r1'' ''updatedISOTime'' =
     Some (JStr ''2030-01-01T00:00:00.000Z'') \<and>
   storedMetaField
     (fst (snd (updatesResourceByID oneRecord 0 ''2026-11-03T09:00:00.000Z''
       ''2026-11-03T09:00:00.000Z'' ''Dummy'' (plainResourceModel ''Dummy'') ''r1''
       [''name'' \<mapsto> JStr ''second''] ''userU''))) ''Dummy:r1'' ''updatedISOTime'' =
     Some (JStr ''2026-11-03T09:00:00.000Z'') \<and>
   \<not> notLaterThan ''2030-01-01T00:00:00.000Z'' ''2026-11-03T09:00:00.000Z''"
  by (simp add: oneRecord_def update_eval resolved_def)

section \<open>The caller's attributes object\<close>

lemma createResource_after_deletion:
  assumes "createResource this resourceType NucleusResourceModel resourceAttributes originUserID
      parentNodeID = (p, this', resourceAttributes')"
    and "settledAfterDeletion p"
  shows "\<exists>memberNodeID.
      tryCreateResource this resourceType NucleusResourceModel resourceAttributes originUserID
        memberNodeID = (p, this', resourceAttributes')"
  using assms
  by (auto simp: createResource_def Let_def settledAfterDeletion_def
        split: if_splits option.splits)

lemma updatesResourceByID_after_deletion:
  assumes "updatesResourceByID this fuel updatedISOTime isoTimeAtWrite resourceType
      NucleusResourceModel resourceID resourceAttributes originUserID =
      (p, this', resourceAttributes')"
    and "settledAfterDeletion p"
  shows "resourceAttributes' = deleteProperty (deleteProperty resourceAttributes ''ID'') ''meta''"
  using assms
  by (auto simp: updatesResourceByID_def Let_def settledAfterDeletion_def
        split: if_splits option.splits sum.splits prod.splits)

text \<open>
  C10.  When \<open>createResource\<close> or \<open>updatesResourceByID\<close> gets as far as building the
  resource (the call resolves, or it fails in the constructor or in a store), the object
  the caller passed in has lost \<open>ID\<close> and \<open>meta\<close> and is otherwise as it was.  In
  \<open>createResource\<close> the constructor receives the stripped object and, as reserved ID, the
  value \<open>ID\<close> had before.
\<close>

theorem reserved_keys_deleted_in_place:
  "(createResource this resourceType NucleusResourceModel resourceAttributes originUserID
      parentNodeID = (p, this', resourceAttributes') \<and> settledAfterDeletion p \<longrightarrow>
      resourceAttributes' = deleteProperty (deleteProperty resourceAttributes ''ID'') ''meta'' \<and>
      ''ID'' \<notin> dom resourceAttributes' \<and> ''meta'' \<notin> dom resourceAttributes' \<and>
      (\<forall>name. name \<noteq> ''ID'' \<and> name \<noteq> ''meta'' \<longrightarrow>
         resourceAttributes' name = resourceAttributes name) \<and>
      (\<forall>created. p = Resolved created \<longrightarrow>
         NucleusResourceModel resourceAttributes' originUserID (resourceAttributes ''ID'') =
           Inr (resource created))) \<and>
   (updatesResourceByID this fuel updatedISOTime isoTimeAtWrite resourceType NucleusResourceModel
      resourceID patchAttributes originUserID = (q, that', patchAttributes') \<and>
      settledAfterDeletion q \<longrightarrow>
      patchAttributes' = deleteProperty (deleteProperty patchAttributes ''ID'') ''meta'' \<and>
      ''ID'' \<notin> dom patchAttributes' \<and> ''meta'' \<notin> dom patchAttributes' \<and>
      (\<forall>name. name \<noteq> ''ID'' \<and> name \<noteq> ''meta'' \<longrightarrow>
         patchAttributes' name = patchAttributes name))"
proof (rule conjI; rule impI)
  assume call: "createResource this resourceType NucleusResourceModel resourceAttributes
      originUserID parentNodeID = (p, this', resourceAttributes') \<and> settledAfterDeletion p"
  then obtain memberNodeID where attempt:
    "tryCreateResource this resourceType NucleusResourceModel resourceAttributes originUserID
       memberNodeID = (p, this', resourceAttributes')"
    using createResource_after_deletion by blast
  then have stripped:
    "resourceAttributes' = deleteProperty (deleteProperty resourceAttributes ''ID'') ''meta''"
    by (rule tryCreateResource_attributes)
  have built: "NucleusResourceModel resourceAttributes' originUserID (resourceAttributes ''ID'') =
      Inr (resource created)" if "p = Resolved created" for created
    using tryCreateResource_resolved [of this resourceType NucleusResourceModel resourceAttributes
        originUserID memberNodeID created this' resourceAttributes'] attempt that stripped
    by simp
  show "resourceAttributes' = deleteProperty (deleteProperty resourceAttributes ''ID'') ''meta'' \<and>
      ''ID'' \<notin> dom resourceAttributes' \<and> ''meta'' \<notin> dom resourceAttributes' \<and>
      (\<forall>name. name \<noteq> ''ID'' \<and> name \<noteq> ''meta'' \<longrightarrow>
         resourceAttributes' name = resourceAttributes name) \<and>
      (\<forall>created. p = Resolved created \<longrightarrow>
         NucleusResourceModel resourceAttributes' originUserID (resourceAttributes ''ID'') =
           Inr (resource created))"
    using stripped built by (simp add: deleteProperty_def dom_def)
next
  assume "updatesResourceByID this fuel updatedISOTime isoTimeAtWrite resourceType
      NucleusResourceModel resourceID patchAttributes originUserID = (q, that', patchAttributes') \<and>
      settledAfterDeletion q"
  then have "patchAttributes' = deleteProperty (deleteProperty patchAttributes ''ID'') ''meta''"
    using updatesResourceByID_after_deletion by blast
  then show "patchAttributes' = deleteProperty (deleteProperty patchAttributes ''ID'') ''meta'' \<and>
      ''ID'' \<notin> dom patchAttributes' \<and> ''meta'' \<notin> dom patchAttributes' \<and>
      (\<forall>name. name \<noteq> ''ID'' \<and> name \<noteq> ''meta'' \<longrightarrow>
         patchAttributes' name = patchAttributes name)"
    by (simp add: deleteProperty_def dom_def)
qed


text \<open>
  \<open>userU\<close> creates a \<open>Dummy\<close> from an object that suggests the ID \<open>r7\<close> and carries a
  \<open>meta\<close> of its own, and patches \<open>Dummy:r1\<close> with such an object: afterwards both
  objects hold the name alone, and the created resource has the ID \<open>r7\<close>.
\<close>

theorem reserved_keys_deleted_in_place_witness:
  "(\<exists>created this' resourceAttributes'.
      createResource twoTrees ''Dummy'' (plainResourceModel ''Dummy'')
        [''name'' \<mapsto> JStr ''x'', ''ID'' \<mapsto> JStr ''r7'', ''meta'' \<mapsto> JStr ''junk'']
        ''userU'' None = (Resolved created, this', resourceAttributes') \<and>
      ''ID'' \<notin> dom resourceAttributes' \<and> ''meta'' \<notin> dom resourceAttributes' \<and>
      resourceAttributes' ''name'' = Some (JStr ''x'') \<and>
      ID (resource created) = ''r7'') \<and>
   (\<exists>r that' patchAttributes'.
      updatesResourceByID oneRecord 0 ''2031-03-03T08:00:00.000Z'' ''2031-03-03T08:00:00.001Z''
        ''Dummy'' (plainResourceModel ''Dummy'') ''r1''
        [''name'' \<mapsto> JStr ''second'', ''ID'' \<mapsto> JStr ''r9'', ''meta'' \<mapsto> JStr ''junk'']
        ''userU'' = (Resolved r, that', patchAttributes') \<and>
      ''ID'' \<notin> dom patchAttributes' \<and> ''meta'' \<notin> dom patchAttributes' \<and>
      patchAttributes' ''name'' = Some (JStr ''second''))"
proof -
  let ?given = "[''name'' \<mapsto> JStr ''x'', ''ID'' \<mapsto> JStr ''r7'', ''meta'' \<mapsto> JStr ''junk'']"
  let ?patch = "[''name'' \<mapsto> JStr ''second'', ''ID'' \<mapsto> JStr ''r9'', ''meta'' \<mapsto> JStr ''junk'']"
  have "\<exists>created this' resourceAttributes'.
      createResource twoTrees ''Dummy'' (plainResourceModel ''Dummy'') ?given ''userU'' None =
        (Resolved created, this', resourceAttributes')"
    by (simp add: twoTrees_def create_eval walk_eval)
  then obtain created this' resourceAttributes' where create:
    "createResource twoTrees ''Dummy'' (plainResourceModel ''Dummy'') ?given ''userU'' None =
       (Resolved created, this', resourceAttributes')"
    by (elim exE) (rule that)
  have "\<exists>r that' patchAttributes'.
      updatesResourceByID oneRecord 0 ''2031-03-03T08:00:00.000Z'' ''2031-03-03T08:00:00.001Z''
        ''Dummy'' (plainResourceModel ''Dummy'') ''r1'' ?patch ''userU'' =
        (Resolved r, that', patchAttributes')"
    by (simp add: oneRecord_def update_eval)
  then obtain r that' patchAttributes' where update:
    "updatesResourceByID oneRecord 0 ''2031-03-03T08:00:00.000Z'' ''2031-03-03T08:00:00.001Z''
        ''Dummy'' (plainResourceModel ''Dummy'') ''r1'' ?patch ''userU'' =
        (Resolved r, that', patchAttributes')"
    by (elim exE) (rule that)
  have settled: "settledAfterDeletion (Resolved created)" "settledAfterDeletion (Resolved r)"
    by (simp_all add: settledAfterDeletion_def)
  have c: "resourceAttributes' = deleteProperty (deleteProperty ?given ''ID'') ''meta'' \<and>
      ''ID'' \<notin> dom resourceAttributes' \<and> ''meta'' \<notin> dom resourceAttributes' \<and>
      (\<forall>name. name \<noteq> ''ID'' \<and> name \<noteq> ''meta'' \<longrightarrow>
         resourceAttributes' name = ?given name) \<and>
      (\<forall>made. Resolved created = Resolved made \<longrightarrow>
         plainResourceModel ''Dummy'' resourceAttributes' ''userU'' (?given ''ID'') =
           Inr (resource made))"
    by (rule reserved_keys_deleted_in_place
          [where this = twoTrees and resourceType = "''Dummy''"
             and NucleusResourceModel = "plainResourceModel ''Dummy''"
             and resourceAttributes = ?given and originUserID = "''userU''"
             and parentNodeID = None and p = "Resolved created" and this' = this'
             and resourceAttributes' = resourceAttributes', THEN conjunct1, THEN mp])
       (intro conjI create settled)
  have u: "patchAttributes' = deleteProperty (deleteProperty ?patch ''ID'') ''meta'' \<and>
      ''ID'' \<notin> dom patchAttributes' \<and> ''meta'' \<notin> dom patchAttributes' \<and>
      (\<forall>name. name \<noteq> ''ID'' \<and> name \<noteq> ''meta'' \<longrightarrow>
         patchAttributes' name = ?patch name)"
    by (rule reserved_keys_deleted_in_place
          [where this = oneRecord and resourceType = "''Dummy''"
             and NucleusResourceModel = "plainResourceModel ''Dummy''"
             and originUserID = "''userU''" and fuel = 0
             and updatedISOTime = "''2031-03-03T08:00:00.000Z''"
             and isoTimeAtWrite = "''2031-03-03T08:00:00.001Z''" and resourceID = "''r1''"
             and patchAttributes = ?patch and q = "Resolved r" and that' = that'
             and patchAttributes' = patchAttributes', THEN conjunct2, THEN mp])
       (intro conjI update settled)
  note c1 = c [THEN conjunct2, THEN conjunct1]
    and c2 = c [THEN conjunct2, THEN conjunct2, THEN conjunct1]
    and c3 = c [THEN conjunct2, THEN conjunct2, THEN conjunct2, THEN conjunct1]
    and c4 = c [THEN conjunct2, THEN conjunct2, THEN conjunct2, THEN conjunct2]
  note u1 = u [THEN conjunct2, THEN conjunct1]
    and u2 = u [THEN conjunct2, THEN conjunct2, THEN conjunct1]
    and u3 = u [THEN conjunct2, THEN conjunct2, THEN conjunct2]
  have c5: "resourceAttributes' ''name'' = Some (JStr ''x'')"
    using c3 [rule_format, of "''name''"] by simp
  have u5: "patchAttributes' ''name'' = Some (JStr ''second'')"
    using u3 [rule_format, of "''name''"] by simp
  have built: "plainResourceModel ''Dummy'' resourceAttributes' ''userU'' (Some (JStr ''r7'')) =
      Inr (resource created)"
    using c4 [rule_format, of created] by simp
  have noID: "resourceAttributes' ''ID'' = None"
    using c1 by (simp add: dom_def)
  have "(case plainResourceModel ''Dummy'' resourceAttributes' ''userU'' (Some (JStr ''r7'')) of
           Inl error \<Rightarrow> error | Inr made \<Rightarrow> ID made) = ''r7''"
    using noID by (simp add: plainResourceModel_def Let_def)
  then have c6: "ID (resource created) = ''r7''"
    unfolding built by simp
  have part1: "\<exists>created this' resourceAttributes'.
      createResource twoTrees ''Dummy'' (plainResourceModel ''Dummy'') ?given ''userU'' None =
        (Resolved created, this', resourceAttributes') \<and>
      ''ID'' \<notin> dom resourceAttributes' \<and> ''meta'' \<notin> dom resourceAttributes' \<and>
      resourceAttributes' ''name'' = Some (JStr ''x'') \<and>
      ID (resource created) = ''r7''"
    by (intro exI [of _ created] exI [of _ this'] exI [of _ resourceAttributes'] conjI
          create c1 c2 c5 c6)
  have part2: "\<exists>r that' patchAttributes'.
      updatesResourceByID oneRecord 0 ''2031-03-03T08:00:00.000Z'' ''2031-03-03T08:00:00.001Z''
        ''Dummy'' (plainResourceModel ''Dummy'') ''r1'' ?patch ''userU'' =
        (Resolved r, that', patchAttributes') \<and>
      ''ID'' \<notin> dom patchAttributes' \<and> ''meta'' \<notin> dom patchAttributes' \<and>
      patchAttributes' ''name'' = Some (JStr ''second'')"
    by (intro exI [of _ r] exI [of _ that'] exI [of _ patchAttributes'] conjI update u1 u2 u5)
  from part1 part2 show ?thesis by (rule conjI)
qed

section \<open>removeResourceByID\<close>

lemma removeAllRelationshipsToVector_clean:
  "e \<in> set (removeAllRelationshipsToVector es vector) \<Longrightarrow>
   fst e \<noteq> vector \<and> snd (snd e) \<noteq> vector"
  by (simp add: removeAllRelationshipsToVector_def)

lemma failure_None: "failure None = None"
  by (simp add: failure_def)

text \<open>
  C9.  A call of \<open>removeResourceByID\<close> that passes the checks on the origin user, the
  datastore, the authorization and the existence of the record starts with the removal of
  the record.  When that fails, nothing has changed and no edge is touched.  When it
  succeeds, the record is gone whatever comes next: without a relationship store the call
  resolves; with one, the cleanup either removes every edge that has the resource ID as
  subject or object and the call resolves, or it fails and the call is rejected with the
  cleanup's error, the record staying removed and the edges as they were.
\<close>

theorem removeResourceByID_record_then_edges:
  assumes "originUserID \<noteq> []"
    and "datastore this = Some ds"
    and "verifyThatUserCanUpdateResource this fuel originUserID resourceID = Some True"
    and "existsAsync ds (generateItemKey resourceType resourceID)"
  shows
    "(\<forall>error. failure (storeFaults this RemoveItemByName) = Some error \<longrightarrow>
        removeResourceByID this fuel resourceType resourceID originUserID =
          (Rejected (Underlying error), this)) \<and>
     (storeFaults this RemoveItemByName = None \<longrightarrow>
        (\<exists>outcome this'.
           removeResourceByID this fuel resourceType resourceID originUserID = (outcome, this') \<and>
           datastore this' = Some (removeItemByName ds (generateItemKey resourceType resourceID)) \<and>
           \<not> existsAsync (removeItemByName ds (generateItemKey resourceType resourceID))
               (generateItemKey resourceType resourceID) \<and>
           (resourceRelationshipDatastore this = None \<longrightarrow>
              outcome = Resolved resourceID \<and> resourceRelationshipDatastore this' = None) \<and>
           (\<forall>es. resourceRelationshipDatastore this = Some es \<and>
                 storeFaults this RemoveAllRelationshipsToVector = None \<longrightarrow>
              outcome = Resolved resourceID \<and>
              resourceRelationshipDatastore this' =
                Some (removeAllRelationshipsToVector es resourceID) \<and>
              (\<forall>e \<in> set (removeAllRelationshipsToVector es resourceID).
                 fst e \<noteq> resourceID \<and> snd (snd e) \<noteq> resourceID)) \<and>
           (\<forall>es error. resourceRelationshipDatastore this = Some es \<and>
                 failure (storeFaults this RemoveAllRelationshipsToVector) = Some error \<longrightarrow>
              outcome = Rejected (Underlying error) \<and>
              resourceRelationshipDatastore this' = Some es)))"
proof (rule conjI; intro allI impI)
  fix error
  assume "failure (storeFaults this RemoveItemByName) = Some error"
  with assms show "removeResourceByID this fuel resourceType resourceID originUserID =
      (Rejected (Underlying error), this)"
    by (auto simp: removeResourceByID_def Let_def invoke_def failure_def
          split: option.splits fault.splits)
next
  let ?key = "generateItemKey resourceType resourceID"
  let ?this1 = "this\<lparr>datastore := Some (removeItemByName ds ?key)\<rparr>"
  assume ok: "storeFaults this RemoveItemByName = None"
  have gone: "\<not> existsAsync (removeItemByName ds ?key) ?key"
    by (simp add: existsAsync_def removeItemByName_def)
  show "\<exists>outcome this'.
      removeResourceByID this fuel resourceType resourceID originUserID = (outcome, this') \<and>
      datastore this' = Some (removeItemByName ds ?key) \<and>
      \<not> existsAsync (removeItemByName ds ?key) ?key \<and>
      (resourceRelationshipDatastore this = None \<longrightarrow>
         outcome = Resolved resourceID \<and> resourceRelationshipDatastore this' = None) \<and>
      (\<forall>es. resourceRelationshipDatastore this = Some es \<and>
            storeFaults this RemoveAllRelationshipsToVector = None \<longrightarrow>
         outcome = Resolved resourceID \<and>
         resourceRelationshipDatastore this' =
           Some (removeAllRelationshipsToVector es resourceID) \<and>
         (\<forall>e \<in> set (removeAllRelationshipsToVector es resourceID).
            fst e \<noteq> resourceID \<and> snd (snd e) \<noteq> resourceID)) \<and>
      (\<forall>es error. resourceRelationshipDatastore this = Some es \<and>
            failure (storeFaults this RemoveAllRelationshipsToVector) = Some error \<longrightarrow>
         outcome = Rejected (Underlying error) \<and>
         resourceRelationshipDatastore this' = Some es)"
  proof (cases "resourceRelationshipDatastore this")
    case None
    with assms ok have "removeResourceByID this fuel resourceType resourceID originUserID =
        (Resolved resourceID, ?this1)"
      by (simp add: removeResourceByID_def Let_def invoke_def failure_def onDatastore_def)
    with None gone show ?thesis by simp
  next
    case (Some es)
    show ?thesis
    proof (cases "storeFaults this RemoveAllRelationshipsToVector")
      case None
      with assms ok Some have "removeResourceByID this fuel resourceType resourceID originUserID =
          (Resolved resourceID,
           ?this1\<lparr>resourceRelationshipDatastore :=
                      Some (removeAllRelationshipsToVector es resourceID)\<rparr>)"
        by (simp add: removeResourceByID_def Let_def invoke_def failure_def onDatastore_def
              onRelationships_def)
      with None Some gone show ?thesis
        by (simp add: failure_def removeAllRelationshipsToVector_def)
    next
      case (Some f)
      obtain error where error: "failure (Some f) = Some error"
        by (cases f) (simp_all add: failure_def)
      with assms ok Some \<open>resourceRelationshipDatastore this = Some es\<close>
      have "removeResourceByID this fuel resourceType resourceID originUserID =
          (Rejected (Underlying error), ?this1)"
        by (simp add: removeResourceByID_def Let_def invoke_def onDatastore_def failure_None)
      with Some error \<open>resourceRelationshipDatastore this = Some es\<close> gone show ?thesis
        by simp
    qed
  qed
qed


lemmas remove_eval =
  removeResourceByID_def invoke_def failure_def onDatastore_def onRelationships_def
  existsAsync_def removeItemByName_def removeAllRelationshipsToVector_def generateItemKey_def
  noFaults_def storedField_def isAuthored_def

text \<open>
  \<open>userU\<close> removes \<open>Dummy:r1\<close> of its own organisation while the relationship cleanup
  rejects with \<open>ECONNRESET\<close>: the call is rejected with that error, the record is gone and
  the edges of \<open>r1\<close> are still there.
\<close>

theorem removeResourceByID_record_then_edges_witness:
  "fst (removeResourceByID
          (recordInTree\<lparr>storeFaults := (\<lambda>call. if call = RemoveAllRelationshipsToVector
                                                  then Some (Rejects ''ECONNRESET'') else None)\<rparr>)
          5 ''Dummy'' ''r1'' ''userU'') = Rejected (Underlying ''ECONNRESET'') \<and>
   storedField
     (snd (removeResourceByID
          (recordInTree\<lparr>storeFaults := (\<lambda>call. if call = RemoveAllRelationshipsToVector
                                                  then Some (Rejects ''ECONNRESET'') else None)\<rparr>)
          5 ''Dummy'' ''r1'' ''userU'')) ''Dummy:r1'' ''ID'' = None \<and>
   storedField recordInTree ''Dummy:r1'' ''ID'' = Some (JStr ''r1'') \<and>
   resourceRelationshipDatastore
     (snd (removeResourceByID
          (recordInTree\<lparr>storeFaults := (\<lambda>call. if call = RemoveAllRelationshipsToVector
                                                  then Some (Rejects ''ECONNRESET'') else None)\<rparr>)
          5 ''Dummy'' ''r1'' ''userU'')) =
     Some [(''orgA'', isMember, SYSTEM), (''userU'', isMember, ''orgA''),
           (''r1'', isMember, ''orgA''), (''r1'', isAuthored, ''userU'')]"
proof -
  let ?faults = "\<lambda>call. if call = RemoveAllRelationshipsToVector
                        then Some (Rejects ''ECONNRESET'') else None"
  let ?faulty = "recordInTree\<lparr>storeFaults := ?faults\<rparr>"
  let ?ds = "\<lparr>hashes = [''Dummy:r1'' \<mapsto> storedDummy], setMembers = []\<rparr>"
  let ?es = "[(''orgA'', isMember, SYSTEM), (''userU'', isMember, ''orgA''),
              (''r1'', isMember, ''orgA''), (''r1'', isAuthored, ''userU'')]"
  have user: "''userU'' \<noteq> []" by simp
  have store: "datastore ?faulty = Some ?ds" by (simp add: recordInTree_def)
  have allowed: "verifyThatUserCanUpdateResource ?faulty 5 ''userU'' ''r1'' = Some True"
    by (simp add: verifyThatUserCanUpdateResource_decision recordInTree_def walk_eval isAuthored_def)
  have key: "generateItemKey ''Dummy'' ''r1'' = ''Dummy:r1''"
    by (simp add: generateItemKey_def)
  have exists: "existsAsync ?ds (generateItemKey ''Dummy'' ''r1'')"
    by (simp add: key existsAsync_def)
  have removal: "storeFaults ?faulty RemoveItemByName = None" by simp
  have edges: "resourceRelationshipDatastore ?faulty = Some ?es \<and>
      failure (storeFaults ?faulty RemoveAllRelationshipsToVector) = Some ''ECONNRESET''"
    by (simp add: recordInTree_def failure_def)
  from removeResourceByID_record_then_edges [OF user store allowed exists, THEN conjunct2,
      THEN mp, OF removal]
  obtain outcome this' where
    run: "removeResourceByID ?faulty 5 ''Dummy'' ''r1'' ''userU'' = (outcome, this')" and
    after: "datastore this' = Some (removeItemByName ?ds (generateItemKey ''Dummy'' ''r1''))" and
    failed: "\<forall>es error. resourceRelationshipDatastore ?faulty = Some es \<and>
        failure (storeFaults ?faulty RemoveAllRelationshipsToVector) = Some error \<longrightarrow>
        outcome = Rejected (Underlying error) \<and> resourceRelationshipDatastore this' = Some es"
    by (elim exE conjE) (rule that)
  from failed [rule_format, OF edges]
  have outcome: "outcome = Rejected (Underlying ''ECONNRESET'')"
    and kept: "resourceRelationshipDatastore this' = Some ?es"
    by (rule conjunct1, rule conjunct2)
  have gone: "storedField this' ''Dummy:r1'' ''ID'' = None"
    using after by (simp add: storedField_def key removeItemByName_def)
  have before: "storedField recordInTree ''Dummy:r1'' ''ID'' = Some (JStr ''r1'')"
    by (simp add: storedField_def recordInTree_def storedDummy_def)
  show ?thesis
    unfolding run fst_conv snd_conv using outcome kept gone before by (intro conjI)
qed

end
